theory Spec2Isabelle
  imports Main
begin

section \<open>Python strings and scalars\<close>

text \<open>
  The formatter of \<^verbatim>\<open>spacy_conll/formatter.py\<close> works on Python strings and
  integers. A Python \<^verbatim>\<open>str\<close> is embedded as a \<^typ>\<open>string\<close> of ASCII
  characters, a Python \<^verbatim>\<open>int\<close> as an \<^typ>\<open>int\<close>. The exceptions the code can
  meet are values of \<open>error\<close>; a computation that may raise returns
  \<open>error + 'a\<close>, with \<open>Inl\<close> for the exception.
\<close>

datatype error =
    KeyError "string list"  \<comment> \<open>the payload is the key list a message prints, if any\<close>
  | IndexError
  | TypeError
  | ValueError

definition TAB :: char where
  "TAB = CHR 0x09"

definition NL :: char where
  "NL = CHR 0x0A"

text \<open>\<^verbatim>\<open>sep.join(xs)\<close>.\<close>

fun join :: "string \<Rightarrow> string list \<Rightarrow> string" where
  "join sep [] = []"
| "join sep [x] = x"
| "join sep (x # y # xs) = x @ sep @ join sep (y # xs)"

text \<open>\<^verbatim>\<open>s.split(c)\<close> for a separator of one character: one more field than
  there are separators, empty fields kept.\<close>

fun split :: "char \<Rightarrow> string \<Rightarrow> string list" where
  "split c [] = [[]]"
| "split c (x # xs) =
     (if x = c then [] # split c xs
      else (case split c xs of
              [] \<Rightarrow> [[x]]
            | r # rs \<Rightarrow> (x # r) # rs))"

text \<open>\<^verbatim>\<open>str.lower\<close> on ASCII letters.\<close>

definition lower_chr :: "char \<Rightarrow> char" where
  "lower_chr c =
     (case map_of (zip ''ABCDEFGHIJKLMNOPQRSTUVWXYZ'' ''abcdefghijklmnopqrstuvwxyz'') c of
        None \<Rightarrow> c
      | Some d \<Rightarrow> d)"

definition lower :: "string \<Rightarrow> string" where
  "lower s = map lower_chr s"

text \<open>The ASCII characters for which \<^verbatim>\<open>str.isspace\<close> holds: tab, line feed,
  vertical tab, form feed, carriage return, the four separators 0x1C to 0x1F, and space.
  \<^verbatim>\<open>str.strip()\<close> removes them from both ends.\<close>

definition isspace :: "char \<Rightarrow> bool" where
  "isspace c \<longleftrightarrow>
     c \<in> set [CHR 0x09, CHR 0x0A, CHR 0x0B, CHR 0x0C, CHR 0x0D,
              CHR 0x1C, CHR 0x1D, CHR 0x1E, CHR 0x1F, CHR 0x20]"

definition strip :: "string \<Rightarrow> string" where
  "strip s = rev (dropWhile isspace (rev (dropWhile isspace s)))"

text \<open>\<^verbatim>\<open>str(n)\<close> for an integer: decimal digits, a minus sign when negative.\<close>

definition digit_chr :: "nat \<Rightarrow> char" where
  "digit_chr d = ''0123456789'' ! d"

fun str_nat :: "nat \<Rightarrow> string" where
  "str_nat n = (if n < 10 then [digit_chr n] else str_nat (n div 10) @ [digit_chr (n mod 10)])"

declare str_nat.simps [simp del]

definition str_int :: "int \<Rightarrow> string" where
  "str_int n = (if n < 0 then CHR ''-'' # str_nat (nat (- n)) else str_nat (nat n))"

text \<open>The scalars held by a CoNLL record: the id and the head are integers, the other
  fields strings. \<open>py_str\<close> is \<^verbatim>\<open>str(v)\<close>.\<close>

datatype "value" = VInt int | VStr string

fun py_str :: "value \<Rightarrow> string" where
  "py_str (VInt n) = str_int n"
| "py_str (VStr s) = s"

subsection \<open>The built-in \<^verbatim>\<open>float\<close> on strings\<close>

text \<open>
  \<^verbatim>\<open>_is_number\<close> calls \<^verbatim>\<open>float(s)\<close> and looks only at whether it raises
  \<^verbatim>\<open>ValueError\<close>. \<open>float_literal\<close> recognises the strings the built-in accepts,
  following the grammar of the language reference for ASCII input: white space around
  the literal is dropped, a sign may lead, then either \<^verbatim>\<open>inf\<close>,
  \<^verbatim>\<open>infinity\<close> or \<^verbatim>\<open>nan\<close> in any case, or a decimal number with an optional
  fraction and exponent, where an underscore may stand between two digits. A literal too
  large for a double is accepted (it reads as infinity).
\<close>

definition is_digit :: "char \<Rightarrow> bool" where
  "is_digit c \<longleftrightarrow> c \<in> set ''0123456789''"

text \<open>White space that \<^verbatim>\<open>float\<close> drops at both ends of an ASCII string.\<close>

definition float_space :: "char \<Rightarrow> bool" where
  "float_space c \<longleftrightarrow> c \<in> set [CHR 0x09, CHR 0x0A, CHR 0x0B, CHR 0x0C, CHR 0x0D, CHR 0x20]"

text \<open>\<open>digit_tail\<close> reads the rest of a digit part, \<^verbatim>\<open>(["_"] digit)*\<close>, and returns
  what follows it.\<close>

fun digit_tail :: "string \<Rightarrow> string" where
  "digit_tail [] = []"
| "digit_tail [c] = (if is_digit c then [] else [c])"
| "digit_tail (c # d # cs) =
     (if is_digit c then digit_tail (d # cs)
      else if c = CHR ''_'' \<and> is_digit d then digit_tail cs
      else c # d # cs)"

definition digitpart :: "string \<Rightarrow> string option" where
  "digitpart s =
     (case s of
        [] \<Rightarrow> None
      | c # cs \<Rightarrow> if is_digit c then Some (digit_tail cs) else None)"

text \<open>\<^verbatim>\<open>number ::= [digitpart] "." digitpart | digitpart ["."]\<close>, then what follows.\<close>

definition number :: "string \<Rightarrow> string option" where
  "number s =
     (case digitpart s of
        Some r \<Rightarrow>
          (case r of
             [] \<Rightarrow> Some r
           | c # r' \<Rightarrow>
               if c = CHR ''.'' then
                 (case digitpart r' of None \<Rightarrow> Some r' | Some r'' \<Rightarrow> Some r'')
               else Some r)
      | None \<Rightarrow>
          (case s of
             [] \<Rightarrow> None
           | c # r \<Rightarrow> if c = CHR ''.'' then digitpart r else None))"

text \<open>\<^verbatim>\<open>exponent ::= ("e" | "E") [sign] digitpart\<close>, optional, up to the end.\<close>

definition drop_sign :: "string \<Rightarrow> string" where
  "drop_sign s =
     (case s of
        [] \<Rightarrow> []
      | c # cs \<Rightarrow> if c = CHR ''+'' \<or> c = CHR ''-'' then cs else s)"

definition exponent_end :: "string \<Rightarrow> bool" where
  "exponent_end r =
     (case r of
        [] \<Rightarrow> True
      | c # r' \<Rightarrow> (c = CHR ''e'' \<or> c = CHR ''E'') \<and> digitpart (drop_sign r') = Some [])"

definition floatnumber :: "string \<Rightarrow> bool" where
  "floatnumber s = (case number s of None \<Rightarrow> False | Some r \<Rightarrow> exponent_end r)"

definition inf_or_nan :: "string \<Rightarrow> bool" where
  "inf_or_nan s \<longleftrightarrow> lower s \<in> set [''inf'', ''infinity'', ''nan'']"

definition float_literal :: "string \<Rightarrow> bool" where
  "float_literal s =
     (let t = drop_sign (rev (dropWhile float_space (rev (dropWhile float_space s))))
      in floatnumber t \<or> inf_or_nan t)"

text \<open>\<^verbatim>\<open>float(s)\<close>; the number itself is not modelled, the caller drops it.\<close>

definition py_float :: "string \<Rightarrow> error + unit" where
  "py_float s = (if float_literal s then Inr () else Inl ValueError)"

section \<open>Data model\<close>

text \<open>
  A dictionary is an association list in the order of its keys, read with
  \<^const>\<open>map_of\<close>. \<open>getitem\<close> is \<^verbatim>\<open>d[k]\<close>, which raises \<^verbatim>\<open>KeyError\<close>
  on a missing key; \<open>setitem\<close> is \<^verbatim>\<open>d[k] = v\<close>, which keeps the place of a key
  already there.
\<close>

definition getitem :: "('k \<times> 'v) list \<Rightarrow> 'k \<Rightarrow> error + 'v" where
  "getitem d k = (case map_of d k of None \<Rightarrow> Inl (KeyError []) | Some v \<Rightarrow> Inr v)"

fun setitem :: "('k \<times> 'v) list \<Rightarrow> 'k \<Rightarrow> 'v \<Rightarrow> ('k \<times> 'v) list" where
  "setitem [] k v = [(k, v)]"
| "setitem ((k', v') # d) k v = (if k' = k then (k, v) # d else (k', v') # setitem d k v)"

type_synonym conll_d = "(string \<times> value) list"

type_synonym tag_map = "(string \<times> (string \<times> value) list) list"

type_synonym conversion = "(string \<times> (value \<times> value) list) list"

text \<open>
  The values the formatter stores in extension attributes: \<^verbatim>\<open>None\<close> (the default of
  an attribute that was never set), the record of a token, a string, the
  \<^verbatim>\<open>Series\<close> built from a record, a list of attribute values, and a pandas table. A
  table is, as far as the formatter looks at it, its rows with their index labels; a row
  is the object it was built from.
\<close>

datatype ext =
    ENone
  | EDict conll_d
  | EStr string
  | ESeries conll_d
  | EList "ext list"
  | EFrame "(int \<times> ext) list"

type_synonym dataframe = "(int \<times> ext) list"

text \<open>
  spaCy's \<^verbatim>\<open>Underscore\<close> store of one object: the value of every extension
  attribute, by the name of the attribute. \<^verbatim>\<open>obj._.set(name, v)\<close> is the update
  \<open>(store)(name := v)\<close> and \<^verbatim>\<open>obj._.get(name)\<close> is \<open>store name\<close>, so that two
  attributes registered under one name are one cell.
\<close>

type_synonym underscore = "string \<Rightarrow> ext"

text \<open>
  spaCy's objects. A token carries its position in the document (\<^verbatim>\<open>token.i\<close>), its
  annotations, the position of its head (\<^verbatim>\<open>token.head.i\<close>) and its store; a sentence
  its tokens, its text and its store; a document its sentences and its store.
\<close>

record token =
  tok_i :: int
  tok_text :: string
  tok_lemma :: string
  tok_pos :: string
  tok_tag :: string
  tok_dep :: string
  tok_whitespace :: string
  tok_head_i :: int
  t_ext :: underscore

record span =
  toks :: "token list"
  span_text :: string
  s_ext :: underscore

record doc =
  sents :: "span list"
  d_ext :: underscore

record language =
  tag_map :: "tag_map option"

text \<open>The state of a \<^verbatim>\<open>ConllFormatter\<close>. \<open>PD_AVAILABLE\<close> is the module's flag
  that pandas could be imported.\<close>

record formatter =
  tagmap :: "tag_map option"
  ext_names :: "(string \<times> string) list"
  conversion_maps :: "conversion option"
  include_headers :: bool
  disable_pandas :: bool
  PD_AVAILABLE :: bool

definition CONLL_FIELD_NAMES :: "string list" where
  "CONLL_FIELD_NAMES =
     [''id'', ''form'', ''lemma'', ''upostag'', ''xpostag'',
      ''feats'', ''head'', ''deprel'', ''deps'', ''misc'']"

subsection \<open>What the formatter uses of pandas\<close>

text \<open>\<^verbatim>\<open>pd.DataFrame(rows)\<close> numbers the rows from 0. \<^verbatim>\<open>pd.concat(objs)\<close> drops
  the entries that are \<^verbatim>\<open>None\<close>, raises \<^verbatim>\<open>ValueError\<close> when nothing is left to
  concatenate, an empty list included, and raises \<^verbatim>\<open>TypeError\<close> on an object that
  is no pandas object. The formatter passes it the table attributes of sentences; a
  \<^verbatim>\<open>Series\<close> is never among them and is refused here like any object that is not a
  table. \<^verbatim>\<open>reset_index(drop=True)\<close> numbers the rows anew.\<close>

definition pd_DataFrame :: "ext list \<Rightarrow> dataframe" where
  "pd_DataFrame rows = zip (map int [0..<length rows]) rows"

fun frames :: "ext list \<Rightarrow> error + dataframe list" where
  "frames [] = Inr []"
| "frames (ENone # xs) = frames xs"
| "frames (EFrame df # xs) =
     (case frames xs of Inl e \<Rightarrow> Inl e | Inr dfs \<Rightarrow> Inr (df # dfs))"
| "frames (x # xs) = Inl TypeError"

definition pd_concat :: "ext list \<Rightarrow> error + dataframe" where
  "pd_concat objs =
     (case frames objs of
        Inl e \<Rightarrow> Inl e
      | Inr dfs \<Rightarrow> if dfs = [] then Inl ValueError else Inr (concat dfs))"

definition reset_index :: "dataframe \<Rightarrow> dataframe" where
  "reset_index df = zip (map int [0..<length df]) (map snd df)"

text \<open>The items of a \<^verbatim>\<open>sep.join(...)\<close>: an item that is not a string raises
  \<^verbatim>\<open>TypeError\<close>.\<close>

fun str_items :: "ext list \<Rightarrow> error + string list" where
  "str_items [] = Inr []"
| "str_items (EStr s # xs) =
     (case str_items xs of Inl e \<Rightarrow> Inl e | Inr ss \<Rightarrow> Inr (s # ss))"
| "str_items (x # xs) = Inl TypeError"

definition str_join :: "string \<Rightarrow> ext list \<Rightarrow> error + string" where
  "str_join sep xs = (case str_items xs of Inl e \<Rightarrow> Inl e | Inr ss \<Rightarrow> Inr (join sep ss))"

section \<open>The formatter\<close>

subsection \<open>Construction\<close>

text \<open>\<^verbatim>\<open>_merge_dicts_strict(d1, d2)\<close>: the entries of \<open>d2\<close> overwrite those of
  \<open>d1\<close>; a key of \<open>d2\<close> that \<open>d1\<close> does not have raises \<^verbatim>\<open>KeyError\<close>, with the
  keys of \<open>d1\<close> in the message.\<close>

fun merge_dicts_strict ::
  "(string \<times> string) list \<Rightarrow> (string \<times> string) list \<Rightarrow> error + (string \<times> string) list" where
  "merge_dicts_strict d1 [] = Inr d1"
| "merge_dicts_strict d1 ((k, v) # d2) =
     (if k \<notin> set (map fst d1) then Inl (KeyError (map fst d1))
      else merge_dicts_strict (setitem d1 k v) d2)"

definition default_ext_names :: "(string \<times> string) list" where
  "default_ext_names =
     [(''conll_str'', ''conll_str''), (''conll'', ''conll''), (''conll_pd'', ''conll_pd'')]"

text \<open>\<^verbatim>\<open>__init__\<close>. The rename map is merged only when it is given and not empty.
  \<^verbatim>\<open>_set_extensions\<close> registers the three names with default \<^verbatim>\<open>None\<close>; the
  attribute fields of the objects stand for the registered names.\<close>

definition init ::
  "language \<Rightarrow> conversion option \<Rightarrow> (string \<times> string) list option \<Rightarrow> bool \<Rightarrow> bool \<Rightarrow> bool
     \<Rightarrow> error + formatter" where
  "init nlp conv names headers no_pandas pd =
     (case (case names of
              None \<Rightarrow> Inr default_ext_names
            | Some e \<Rightarrow> if e = [] then Inr default_ext_names
                        else merge_dicts_strict default_ext_names e) of
        Inl err \<Rightarrow> Inl err
      | Inr merged \<Rightarrow>
          Inr \<lparr>tagmap = tag_map nlp, ext_names = merged, conversion_maps = conv,
               include_headers = headers, disable_pandas = no_pandas, PD_AVAILABLE = pd\<rparr>)"

definition pandas :: "formatter \<Rightarrow> bool" where
  "pandas fmt \<longleftrightarrow> PD_AVAILABLE fmt \<and> \<not> disable_pandas fmt"

subsection \<open>Morphology\<close>

text \<open>\<^verbatim>\<open>_is_number\<close>: whether \<^verbatim>\<open>float(s)\<close> returns.\<close>

definition is_number :: "string \<Rightarrow> bool" where
  "is_number s = (case py_float s of Inr x \<Rightarrow> True | Inl e \<Rightarrow> False)"

text \<open>\<^verbatim>\<open>_get_morphology\<close>. A tag map that is \<^verbatim>\<open>None\<close> or empty is falsy.\<close>

definition get_morphology :: "formatter \<Rightarrow> string \<Rightarrow> string" where
  "get_morphology fmt tag =
     (case tagmap fmt of
        None \<Rightarrow> ''_''
      | Some tm \<Rightarrow>
          if tm = [] then ''_''
          else (case map_of tm tag of
                  None \<Rightarrow> ''_''
                | Some entry \<Rightarrow>
                    (let feats = map (\<lambda>(prop, val). prop @ ''='' @ py_str val)
                                   (filter (\<lambda>(prop, val). \<not> is_number prop) entry)
                     in if feats \<noteq> [] then join ''|'' feats else ''_'')))"

subsection \<open>Conversion maps\<close>

text \<open>\<^verbatim>\<open>_map_conll\<close>: every value is replaced by
  \<^verbatim>\<open>self._conversion_maps[k][v]\<close>; a \<^verbatim>\<open>KeyError\<close> of either lookup leaves it as
  it is. The keys of the record are different from one another, so assigning by key is
  assigning in place. Without conversion maps the subscript of \<^verbatim>\<open>None\<close> raises
  \<^verbatim>\<open>TypeError\<close>.\<close>

fun map_items :: "conversion \<Rightarrow> conll_d \<Rightarrow> conll_d" where
  "map_items conv [] = []"
| "map_items conv ((k, v) # d) =
     (case (case getitem conv k of Inl e \<Rightarrow> Inl e | Inr m \<Rightarrow> getitem m v) of
        Inl e \<Rightarrow> (k, v)
      | Inr v' \<Rightarrow> (k, v')) # map_items conv d"

definition map_conll :: "formatter \<Rightarrow> conll_d \<Rightarrow> error + conll_d" where
  "map_conll fmt token_conll_d =
     (case conversion_maps fmt of
        None \<Rightarrow> Inl TypeError
      | Some conv \<Rightarrow> Inr (map_items conv token_conll_d))"

subsection \<open>Tokens\<close>

text \<open>The head index of \<^verbatim>\<open>_set_token_conll\<close>. \<open>sent\<close> is \<^verbatim>\<open>token.sent\<close>, the
  sentence the formatter reached the token through; \<^verbatim>\<open>token.sent[0]\<close> is read only
  when the token is not a root.\<close>

definition head_idx :: "span \<Rightarrow> token \<Rightarrow> error + int" where
  "head_idx sent token =
     (if strip (lower (tok_dep token)) = ''root'' then Inr 0
      else (case toks sent of
              [] \<Rightarrow> Inl IndexError
            | t0 # ts \<Rightarrow> Inr (tok_head_i token + 1 - tok_i t0)))"

definition token_conll :: "formatter \<Rightarrow> token \<Rightarrow> int \<Rightarrow> int \<Rightarrow> value list" where
  "token_conll fmt token token_idx h =
     [VInt token_idx,
      VStr (tok_text token),
      VStr (tok_lemma token),
      VStr (tok_pos token),
      VStr (tok_tag token),
      VStr (get_morphology fmt (tok_tag token)),
      VInt h,
      VStr (tok_dep token),
      VStr ''_'',
      VStr (if tok_whitespace token \<noteq> [] then ''_'' else ''SpaceAfter=No'')]"

text \<open>The record of a token: the ten names zipped with the ten values, then the
  conversion maps when they are given and not empty.\<close>

definition token_conll_d :: "formatter \<Rightarrow> span \<Rightarrow> token \<Rightarrow> int \<Rightarrow> error + conll_d" where
  "token_conll_d fmt sent token token_idx =
     (case head_idx sent token of
        Inl e \<Rightarrow> Inl e
      | Inr h \<Rightarrow>
          (let d = zip CONLL_FIELD_NAMES (token_conll fmt token token_idx h)
           in if conversion_maps fmt \<noteq> None \<and> conversion_maps fmt \<noteq> Some []
              then map_conll fmt d else Inr d))"

definition token_conll_str :: "conll_d \<Rightarrow> string" where
  "token_conll_str d = join [TAB] (map (\<lambda>(k, v). py_str v) d) @ [NL]"

text \<open>\<^verbatim>\<open>_set_token_conll\<close>: the token with its three attributes set.\<close>
text \<open>\<^verbatim>\<open>self._ext_names[key]\<close>, the name an attribute is stored under.\<close>

definition ext_name :: "formatter \<Rightarrow> string \<Rightarrow> error + string" where
  "ext_name fmt key = getitem (ext_names fmt) key"

text \<open>\<^verbatim>\<open>_set_token_conll\<close>: the token with the record, the string and, with pandas,
  the \<^verbatim>\<open>Series\<close> stored, in this order, each under its configured name.\<close>

definition set_token_conll :: "formatter \<Rightarrow> span \<Rightarrow> token \<Rightarrow> int \<Rightarrow> error + token" where
  "set_token_conll fmt sent token token_idx =
     (case token_conll_d fmt sent token token_idx of
        Inl e \<Rightarrow> Inl e
      | Inr d \<Rightarrow>
          (case ext_name fmt ''conll'' of
             Inl e \<Rightarrow> Inl e
           | Inr n_conll \<Rightarrow>
               (let t1 = token\<lparr>t_ext := (t_ext token)(n_conll := EDict d)\<rparr>
                in case ext_name fmt ''conll_str'' of
                     Inl e \<Rightarrow> Inl e
                   | Inr n_str \<Rightarrow>
                       (let t2 = t1\<lparr>t_ext := (t_ext t1)(n_str := EStr (token_conll_str d))\<rparr>
                        in if pandas fmt
                           then (case ext_name fmt ''conll_pd'' of
                                   Inl e \<Rightarrow> Inl e
                                 | Inr n_pd \<Rightarrow>
                                     Inr (t2\<lparr>t_ext := (t_ext t2)(n_pd := ESeries d)\<rparr>))
                           else Inr t2))))"

subsection \<open>Sentences\<close>

text \<open>The loop \<^verbatim>\<open>for token_idx, token in enumerate(span, 1)\<close>.\<close>

fun set_tokens :: "formatter \<Rightarrow> span \<Rightarrow> int \<Rightarrow> token list \<Rightarrow> error + token list" where
  "set_tokens fmt sent idx [] = Inr []"
| "set_tokens fmt sent idx (t # ts) =
     (case set_token_conll fmt sent t idx of
        Inl e \<Rightarrow> Inl e
      | Inr t' \<Rightarrow>
          (case set_tokens fmt sent (idx + 1) ts of
             Inl e \<Rightarrow> Inl e
           | Inr ts' \<Rightarrow> Inr (t' # ts')))"

definition headers :: "formatter \<Rightarrow> span \<Rightarrow> int \<Rightarrow> string" where
  "headers fmt span span_idx =
     (if include_headers fmt
      then ''# sent_id = '' @ str_int span_idx @ [NL] @ ''# text = '' @ span_text span @ [NL]
      else [])"

text \<open>\<^verbatim>\<open>_set_span_conll\<close>: the tokens are formatted; the list of what the tokens hold
  under the record name is stored under the record name; what they hold under the string
  name is joined, which raises \<^verbatim>\<open>TypeError\<close> unless all of it is strings, and stored
  after the headers under the string name; with pandas the table of what the tokens hold
  under the record name is stored under the table name.\<close>

definition set_span_conll :: "formatter \<Rightarrow> span \<Rightarrow> int \<Rightarrow> error + span" where
  "set_span_conll fmt span span_idx =
     (case set_tokens fmt span 1 (toks span) of
        Inl e \<Rightarrow> Inl e
      | Inr ts \<Rightarrow>
          (case ext_name fmt ''conll'' of
             Inl e \<Rightarrow> Inl e
           | Inr n_conll \<Rightarrow>
               (let s1 = span\<lparr>toks := ts,
                              s_ext := (s_ext span)(n_conll := EList (map (\<lambda>t. t_ext t n_conll) ts))\<rparr>
                in case ext_name fmt ''conll_str'' of
                     Inl e \<Rightarrow> Inl e
                   | Inr n_str \<Rightarrow>
                       (case str_join [] (map (\<lambda>t. t_ext t n_str) ts) of
                          Inl e \<Rightarrow> Inl e
                        | Inr body \<Rightarrow>
                            (let s2 = s1\<lparr>s_ext := (s_ext s1)
                                           (n_str := EStr (headers fmt span span_idx @ body))\<rparr>
                             in if pandas fmt
                                then (case ext_name fmt ''conll_pd'' of
                                        Inl e \<Rightarrow> Inl e
                                      | Inr n_pd \<Rightarrow>
                                          Inr (s2\<lparr>s_ext := (s_ext s2)
                                                 (n_pd := EFrame (pd_DataFrame
                                                    (map (\<lambda>t. t_ext t n_conll) ts)))\<rparr>))
                                else Inr s2)))))"

subsection \<open>Documents\<close>

text \<open>\<^verbatim>\<open>_set_extensions\<close> looks the names up and registers those not yet registered
  with the default \<^verbatim>\<open>None\<close>, which every store holds for a name never set.\<close>

definition set_extensions :: "formatter \<Rightarrow> error + unit" where
  "set_extensions fmt =
     (case ext_name fmt ''conll_str'' of
        Inl e \<Rightarrow> Inl e
      | Inr n_str \<Rightarrow>
          (case ext_name fmt ''conll'' of
             Inl e \<Rightarrow> Inl e
           | Inr n_conll \<Rightarrow>
               if pandas fmt
               then (case ext_name fmt ''conll_pd'' of Inl e \<Rightarrow> Inl e | Inr n_pd \<Rightarrow> Inr ())
               else Inr ()))"

text \<open>The loop \<^verbatim>\<open>for sent_idx, sent in enumerate(doc.sents, 1)\<close>.\<close>

fun set_spans :: "formatter \<Rightarrow> int \<Rightarrow> span list \<Rightarrow> error + span list" where
  "set_spans fmt idx [] = Inr []"
| "set_spans fmt idx (s # ss) =
     (case set_span_conll fmt s idx of
        Inl e \<Rightarrow> Inl e
      | Inr s' \<Rightarrow>
          (case set_spans fmt (idx + 1) ss of
             Inl e \<Rightarrow> Inl e
           | Inr ss' \<Rightarrow> Inr (s' # ss')))"

text \<open>\<^verbatim>\<open>__call__\<close>: the document with its sentences, tokens and attributes set, or the
  exception that ended the call.\<close>

definition call :: "formatter \<Rightarrow> doc \<Rightarrow> error + doc" where
  "call fmt doc =
     (case set_extensions fmt of
        Inl e \<Rightarrow> Inl e
      | Inr u \<Rightarrow>
     (case set_spans fmt 1 (sents doc) of
        Inl e \<Rightarrow> Inl e
      | Inr ss \<Rightarrow>
          (case ext_name fmt ''conll'' of
             Inl e \<Rightarrow> Inl e
           | Inr n_conll \<Rightarrow>
               (let d1 = doc\<lparr>sents := ss,
                             d_ext := (d_ext doc)(n_conll := EList (map (\<lambda>s. s_ext s n_conll) ss))\<rparr>
                in case ext_name fmt ''conll_str'' of
                     Inl e \<Rightarrow> Inl e
                   | Inr n_str \<Rightarrow>
                       (case str_join [NL] (map (\<lambda>s. s_ext s n_str) ss) of
                          Inl e \<Rightarrow> Inl e
                        | Inr text \<Rightarrow>
                            (let d2 = d1\<lparr>d_ext := (d_ext d1)(n_str := EStr text)\<rparr>
                             in if pandas fmt
                                then (case ext_name fmt ''conll_pd'' of
                                        Inl e \<Rightarrow> Inl e
                                      | Inr n_pd \<Rightarrow>
                                          (case pd_concat (map (\<lambda>s. s_ext s n_pd) ss) of
                                             Inl e \<Rightarrow> Inl e
                                           | Inr df \<Rightarrow>
                                               Inr (d2\<lparr>d_ext := (d_ext d2)
                                                      (n_pd := EFrame (reset_index df))\<rparr>)))
                                else Inr d2))))))"

section \<open>Reference definitions and sample inputs\<close>

text \<open>The conversion of one field as the specification words it: the value is replaced
  when the field has a conversion map and the value is a key of it, and kept otherwise.\<close>

definition spec_convert :: "conversion \<Rightarrow> string \<Rightarrow> value \<Rightarrow> value" where
  "spec_convert conv field v =
     (case map_of conv field of
        None \<Rightarrow> v
      | Some m \<Rightarrow> (case map_of m v of None \<Rightarrow> v | Some v' \<Rightarrow> v'))"

text \<open>A formatter whose tag map knows one tag, with a numeric key among its features.\<close>

definition noun_nlp :: formatter where
  "noun_nlp =
     \<lparr>tagmap = Some [(''NN'', [(''Number'', VStr ''Sing''), (''2'', VStr ''Noun'')])],
      ext_names = default_ext_names, conversion_maps = None, include_headers = False,
      disable_pandas = True, PD_AVAILABLE = False\<rparr>"

text \<open>A formatter whose tag map has keys that read as floating-point numbers.\<close>

definition odd_keys_nlp :: formatter where
  "odd_keys_nlp =
     \<lparr>tagmap = Some [(''JJ'', [(''1.5'', VStr ''a''), (''Case'', VStr ''Nom''), (''1e3'', VStr ''b''),
                              (''inf'', VStr ''c''), (''nan'', VStr ''d''), (''74'', VInt 84),
                              (''Degree'', VStr ''Pos'')])],
      ext_names = default_ext_names, conversion_maps = None, include_headers = False,
      disable_pandas = True, PD_AVAILABLE = False\<rparr>"

text \<open>The record after the conversion maps of a formatter, field by field.\<close>

definition converted :: "formatter \<Rightarrow> conll_d \<Rightarrow> conll_d" where
  "converted fmt d =
     (case conversion_maps fmt of
        None \<Rightarrow> d
      | Some conv \<Rightarrow> map (\<lambda>(k, v). (k, spec_convert conv k v)) d)"

text \<open>Well-formed sentences: the tokens of a sentence stand at consecutive positions
  of the document, and the head of a token of a parsed sentence is a token of the same
  sentence.\<close>

definition contiguous :: "span \<Rightarrow> bool" where
  "contiguous sent \<longleftrightarrow>
     (case toks sent of
        [] \<Rightarrow> True
      | t0 # ts \<Rightarrow> map tok_i (toks sent) = map (\<lambda>k. tok_i t0 + int k) [0..<length (toks sent)])"

definition head_in_sent :: "span \<Rightarrow> token \<Rightarrow> bool" where
  "head_in_sent sent token \<longleftrightarrow> tok_head_i token \<in> set (map tok_i (toks sent))"

text \<open>Objects as the pipeline hands them over, the three attributes unset.\<close>
text \<open>The three names a formatter stores its attributes under; \<^verbatim>\<open>__init__\<close> leaves
  every formatter with all three.\<close>

definition names :: "formatter \<Rightarrow> string \<Rightarrow> string \<Rightarrow> string \<Rightarrow> bool" where
  "names fmt n_conll n_str n_pd \<longleftrightarrow>
     ext_name fmt ''conll'' = Inr n_conll \<and> ext_name fmt ''conll_str'' = Inr n_str \<and>
     ext_name fmt ''conll_pd'' = Inr n_pd"

text \<open>\<^verbatim>\<open>obj._.get(name)\<close> on what a call returned.\<close>

definition token_attr :: "error + token \<Rightarrow> string \<Rightarrow> error + ext" where
  "token_attr r name = (case r of Inl e \<Rightarrow> Inl e | Inr t \<Rightarrow> Inr (t_ext t name))"

definition span_attr :: "error + span \<Rightarrow> string \<Rightarrow> error + ext" where
  "span_attr r name = (case r of Inl e \<Rightarrow> Inl e | Inr s \<Rightarrow> Inr (s_ext s name))"

definition doc_attr :: "error + doc \<Rightarrow> string \<Rightarrow> error + ext" where
  "doc_attr r name = (case r of Inl e \<Rightarrow> Inl e | Inr d \<Rightarrow> Inr (d_ext d name))"

text \<open>Objects as the pipeline hands them over, no attribute set.\<close>

definition mk_token ::
  "int \<Rightarrow> string \<Rightarrow> string \<Rightarrow> string \<Rightarrow> string \<Rightarrow> string \<Rightarrow> string \<Rightarrow> int \<Rightarrow> token" where
  "mk_token i txt lem pos tag dep ws h =
     \<lparr>tok_i = i, tok_text = txt, tok_lemma = lem, tok_pos = pos, tok_tag = tag, tok_dep = dep,
      tok_whitespace = ws, tok_head_i = h, t_ext = (\<lambda>name. ENone)\<rparr>"

definition mk_span :: "token list \<Rightarrow> string \<Rightarrow> span" where
  "mk_span ts txt = \<lparr>toks = ts, span_text = txt, s_ext = (\<lambda>name. ENone)\<rparr>"

definition mk_doc :: "span list \<Rightarrow> doc" where
  "mk_doc ss = \<lparr>sents = ss, d_ext = (\<lambda>name. ENone)\<rparr>"

definition mk_formatter :: "conversion option \<Rightarrow> bool \<Rightarrow> bool \<Rightarrow> formatter" where
  "mk_formatter conv hdrs pd =
     \<lparr>tagmap = None, ext_names = default_ext_names, conversion_maps = conv,
      include_headers = hdrs, disable_pandas = False, PD_AVAILABLE = pd\<rparr>"

text \<open>The formatter \<^verbatim>\<open>ConllFormatter(nlp, ext_names={"conll_pd": "conll_str"})\<close> with
  pandas, and the formatter \<^verbatim>\<open>ConllFormatter(nlp, ext_names={"conll_str": "conll"})\<close>
  without.\<close>

definition pd_as_str :: formatter where
  "pd_as_str =
     \<lparr>tagmap = None,
      ext_names = [(''conll_str'', ''conll_str''), (''conll'', ''conll''), (''conll_pd'', ''conll_str'')],
      conversion_maps = None, include_headers = False, disable_pandas = False,
      PD_AVAILABLE = True\<rparr>"

definition str_as_conll :: formatter where
  "str_as_conll =
     \<lparr>tagmap = None,
      ext_names = [(''conll_str'', ''conll''), (''conll'', ''conll''), (''conll_pd'', ''conll_pd'')],
      conversion_maps = None, include_headers = False, disable_pandas = False,
      PD_AVAILABLE = False\<rparr>"

text \<open>A sentence of two tokens at the positions 3 and 4 of its document.\<close>

definition tok_she :: token where
  "tok_she = mk_token 3 ''She'' ''she'' ''PRON'' ''PRP'' ''nsubj'' '' '' 4"

definition tok_sleeps :: token where
  "tok_sleeps = mk_token 4 ''sleeps'' ''sleep'' ''VERB'' ''VBZ'' ''ROOT'' [] 4"

definition sent_she :: span where
  "sent_she = mk_span [tok_she, tok_sleeps] ''She sleeps''"

text \<open>The conversion maps \<^verbatim>\<open>{"upostag": {"NOUN": "N"}}\<close>.\<close>

definition noun_conv :: conversion where
  "noun_conv = [(''upostag'', [(VStr ''NOUN'', VStr ''N'')])]"

text \<open>A sentence whose second token is a tab character, as spaCy's tokenizer yields for
  white space other than single spaces, with its record and line.\<close>

definition tok_a :: token where
  "tok_a = mk_token 0 ''a'' ''a'' ''NOUN'' ''NN'' ''ROOT'' [] 0"

definition tok_tab :: token where
  "tok_tab = mk_token 1 [TAB] [TAB] ''SPACE'' ''_SP'' [] [] 0"

definition sent_tab :: span where
  "sent_tab = mk_span [tok_a, tok_tab] [CHR ''a'', TAB]"

definition tab_record :: conll_d where
  "tab_record =
     [(''id'', VInt 2), (''form'', VStr [TAB]), (''lemma'', VStr [TAB]),
      (''upostag'', VStr ''SPACE''), (''xpostag'', VStr ''_SP''), (''feats'', VStr ''_''),
      (''head'', VInt 1), (''deprel'', VStr []), (''deps'', VStr ''_''),
      (''misc'', VStr ''SpaceAfter=No'')]"

definition tab_line :: string where
  "tab_line =
     join [TAB] [''2'', [TAB], [TAB], ''SPACE'', ''_SP'', ''_'', ''1'', [], ''_'', ''SpaceAfter=No'']"


text \<open>A second sentence of one token, and the document of the two sentences; the lines
  the formatter writes for them, without the final newline of each sentence.\<close>

definition tok_go :: token where
  "tok_go = mk_token 5 ''Go'' ''go'' ''VERB'' ''VB'' ''ROOT'' [] 5"

definition sent_go :: span where
  "sent_go = mk_span [tok_go] ''Go''"

definition doc_she_go :: doc where
  "doc_she_go = mk_doc [sent_she, sent_go]"

definition she_body :: string where
  "she_body =
     ''1'' @ [TAB] @ ''She'' @ [TAB] @ ''she'' @ [TAB] @ ''PRON'' @ [TAB] @ ''PRP'' @ [TAB] @
     ''_'' @ [TAB] @ ''2'' @ [TAB] @ ''nsubj'' @ [TAB] @ ''_'' @ [TAB] @ ''_'' @ [NL] @
     ''2'' @ [TAB] @ ''sleeps'' @ [TAB] @ ''sleep'' @ [TAB] @ ''VERB'' @ [TAB] @ ''VBZ'' @ [TAB] @
     ''_'' @ [TAB] @ ''0'' @ [TAB] @ ''ROOT'' @ [TAB] @ ''_'' @ [TAB] @ ''SpaceAfter=No''"

definition go_body :: string where
  "go_body =
     ''1'' @ [TAB] @ ''Go'' @ [TAB] @ ''go'' @ [TAB] @ ''VERB'' @ [TAB] @ ''VB'' @ [TAB] @
     ''_'' @ [TAB] @ ''0'' @ [TAB] @ ''ROOT'' @ [TAB] @ ''_'' @ [TAB] @ ''SpaceAfter=No''"

section \<open>Auxiliary facts\<close>

lemma join_nil_sep: "join [] xs = concat xs"
  by (induction "[] :: string" xs rule: join.induct) simp_all

lemma split_no_sep: "c \<notin> set x \<Longrightarrow> split c x = [x]"
  by (induction x) auto

lemma split_append_sep: "c \<notin> set x \<Longrightarrow> split c (x @ c # rest) = x # split c rest"
  by (induction x) auto

lemma split_join:
  "fs \<noteq> [] \<Longrightarrow> \<forall>f\<in>set fs. c \<notin> set f \<Longrightarrow> split c (join [c] fs) = fs"
proof (induction "[c]" fs rule: join.induct)
  case 1
  then show ?case by simp
next
  case (2 x)
  then show ?case by (simp add: split_no_sep)
next
  case (3 x y xs)
  then show ?case by (simp add: split_append_sep)
qed

lemma str_items_EStr: "str_items (map EStr ss) = Inr ss"
  by (induction ss) simp_all

lemma str_join_EStr: "str_join sep (map EStr ss) = Inr (join sep ss)"
  by (simp add: str_join_def str_items_EStr)

lemma frames_EFrame: "frames (map EFrame dfs) = Inr dfs"
  by (induction dfs) simp_all

lemma map_fst_setitem: "k \<in> set (map fst d) \<Longrightarrow> map fst (setitem d k v) = map fst d"
  by (induction d) force+

lemma map_of_setitem: "map_of (setitem d k v) = (map_of d)(k \<mapsto> v)"
  by (induction d) auto

lemma is_number_2: "is_number ''2''"
  by (simp add: is_number_def py_float_def float_literal_def float_space_def drop_sign_def
      floatnumber_def number_def digitpart_def is_digit_def exponent_end_def)

lemma not_is_number_Number: "\<not> is_number ''Number''"
  by (simp add: is_number_def py_float_def float_literal_def float_space_def drop_sign_def
      floatnumber_def number_def digitpart_def is_digit_def exponent_end_def inf_or_nan_def
      lower_def lower_chr_def)

section \<open>Morphology\<close>

text \<open>
  C3. \<^verbatim>\<open>_get_morphology\<close> returns \<^verbatim>\<open>_\<close> when the formatter has no tag map (it is
  \<^verbatim>\<open>None\<close> or empty) or the tag is not a key of it. For a tag of the map it keeps the
  features whose key is not a number, renders each as \<^verbatim>\<open>key=value\<close> and joins them
  with \<^verbatim>\<open>|\<close>; when no feature is kept it returns \<^verbatim>\<open>_\<close>.
\<close>

theorem get_morphology_spec:
  "(tagmap fmt = None \<or> tagmap fmt = Some [] \<longrightarrow> get_morphology fmt tag = ''_'') \<and>
   (\<forall>tm. tagmap fmt = Some tm \<and> map_of tm tag = None \<longrightarrow> get_morphology fmt tag = ''_'') \<and>
   (\<forall>tm entry. tagmap fmt = Some tm \<and> map_of tm tag = Some entry \<longrightarrow>
      get_morphology fmt tag =
        (let kept = filter (\<lambda>(prop, val). \<not> is_number prop) entry
         in if kept = [] then ''_''
            else join ''|'' (map (\<lambda>(prop, val). prop @ ''='' @ py_str val) kept)))"
  by (auto simp: get_morphology_def Let_def split: option.splits)

theorem get_morphology_spec_witness:
  "get_morphology noun_nlp ''NN'' = ''Number=Sing'' \<and> get_morphology noun_nlp ''VB'' = ''_''"
  using get_morphology_spec [of noun_nlp "''NN''"] get_morphology_spec [of noun_nlp "''VB''"]
  by (simp add: noun_nlp_def is_number_2 not_is_number_Number)

section \<open>Dictionaries\<close>

lemma merge_dicts_strict_ok:
  "set (map fst d2) \<subseteq> set (map fst d1) \<Longrightarrow>
   \<exists>d. merge_dicts_strict d1 d2 = Inr d \<and> map fst d = map fst d1 \<and>
       (\<forall>k. map_of d k = (case map_of (rev d2) k of None \<Rightarrow> map_of d1 k | Some v \<Rightarrow> Some v))"
proof (induction d2 arbitrary: d1)
  case Nil
  then show ?case by simp
next
  case (Cons kv d2)
  obtain k v where kv: "kv = (k, v)" by (cases kv)
  from Cons.prems kv have k: "k \<in> set (map fst d1)" and sub: "set (map fst d2) \<subseteq> set (map fst d1)"
    by auto
  have keys: "map fst (setitem d1 k v) = map fst d1" using k by (rule map_fst_setitem)
  from sub keys have "set (map fst d2) \<subseteq> set (map fst (setitem d1 k v))" by simp
  from Cons.IH[OF this] obtain d where
    d: "merge_dicts_strict (setitem d1 k v) d2 = Inr d" "map fst d = map fst (setitem d1 k v)"
       "\<forall>k'. map_of d k' = (case map_of (rev d2) k' of None \<Rightarrow> map_of (setitem d1 k v) k' | Some v' \<Rightarrow> Some v')"
    by blast
  have "merge_dicts_strict d1 (kv # d2) = Inr d" using k d(1) kv by simp
  moreover have "map fst d = map fst d1" using d(2) keys by simp
  moreover have "\<forall>k'. map_of d k' = (case map_of (rev (kv # d2)) k' of None \<Rightarrow> map_of d1 k' | Some v' \<Rightarrow> Some v')"
    using d(3) kv by (auto simp: map_of_setitem map_add_def split: option.splits)
  ultimately show ?case by blast
qed

lemma merge_dicts_strict_bad:
  "\<not> set (map fst d2) \<subseteq> set (map fst d1) \<Longrightarrow>
   merge_dicts_strict d1 d2 = Inl (KeyError (map fst d1))"
proof (induction d2 arbitrary: d1)
  case Nil
  then show ?case by simp
next
  case (Cons kv d2)
  obtain k v where kv: "kv = (k, v)" by (cases kv)
  show ?case
  proof (cases "k \<in> set (map fst d1)")
    case False
    then show ?thesis using kv by simp
  next
    case True
    then have keys: "map fst (setitem d1 k v) = map fst d1" by (rule map_fst_setitem)
    from Cons.prems kv True have "\<not> set (map fst d2) \<subseteq> set (map fst (setitem d1 k v))"
      using keys by auto
    from Cons.IH[OF this] show ?thesis using True kv keys by simp
  qed
qed

lemma map_items_spec: "map_items conv d = map (\<lambda>(k, v). (k, spec_convert conv k v)) d"
  by (induction d) (auto simp: getitem_def spec_convert_def split: option.splits)



section \<open>Numeric keys\<close>

lemmas float_eval = is_number_def py_float_def float_literal_def float_space_def drop_sign_def
  floatnumber_def number_def digitpart_def is_digit_def exponent_end_def inf_or_nan_def
  lower_def lower_chr_def

lemma is_number_iff: "is_number s \<longleftrightarrow> py_float s = Inr ()"
  by (simp add: is_number_def py_float_def)

lemma not_is_number_iff: "\<not> is_number s \<longleftrightarrow> py_float s = Inl ValueError"
  by (simp add: is_number_def py_float_def)

text \<open>
  C10. The numeric test of \<^verbatim>\<open>_is_number\<close> is the success of \<^verbatim>\<open>float\<close>: a key
  is a number exactly when \<^verbatim>\<open>float\<close> returns, and the feature string of a tag keeps
  exactly the entries on whose key \<^verbatim>\<open>float\<close> raises \<^verbatim>\<open>ValueError\<close>. So the keys
  \<^verbatim>\<open>1.5\<close>, \<^verbatim>\<open>1e3\<close>, \<^verbatim>\<open>inf\<close> and \<^verbatim>\<open>nan\<close> are left out like the key
  \<^verbatim>\<open>74\<close>, and a key such as \<^verbatim>\<open>Case\<close> is kept.
\<close>

theorem is_number_float:
  "(is_number prop \<longleftrightarrow> (\<exists>x. py_float prop = Inr x)) \<and>
   (\<not> is_number prop \<longleftrightarrow> py_float prop = Inl ValueError) \<and>
   (\<forall>tm entry. tagmap fmt = Some tm \<and> map_of tm tag = Some entry \<longrightarrow>
      get_morphology fmt tag =
        (let kept = filter (\<lambda>(k, v). py_float k = Inl ValueError) entry
         in if kept = [] then ''_''
            else join ''|'' (map (\<lambda>(k, v). k @ ''='' @ py_str v) kept))) \<and>
   py_float ''1.5'' = Inr () \<and> py_float ''1e3'' = Inr () \<and> py_float ''inf'' = Inr () \<and>
   py_float ''nan'' = Inr () \<and> py_float ''74'' = Inr () \<and>
   py_float ''Case'' = Inl ValueError"
proof -
  have a: "is_number prop \<longleftrightarrow> (\<exists>x. py_float prop = Inr x)"
    by (simp add: is_number_def py_float_def)
  have b: "\<not> is_number prop \<longleftrightarrow> py_float prop = Inl ValueError"
    by (rule not_is_number_iff)
  have c: "\<forall>tm entry. tagmap fmt = Some tm \<and> map_of tm tag = Some entry \<longrightarrow>
      get_morphology fmt tag =
        (let kept = filter (\<lambda>(k, v). py_float k = Inl ValueError) entry
         in if kept = [] then ''_''
            else join ''|'' (map (\<lambda>(k, v). k @ ''='' @ py_str v) kept))"
    by (auto simp: get_morphology_def Let_def not_is_number_iff split: option.splits)
  have d: "py_float ''1.5'' = Inr ()" "py_float ''1e3'' = Inr ()" "py_float ''inf'' = Inr ()"
    "py_float ''nan'' = Inr ()" "py_float ''74'' = Inr ()" "py_float ''Case'' = Inl ValueError"
    by (simp_all add: float_eval)
  from a b c d show ?thesis by blast
qed

theorem is_number_float_witness:
  "get_morphology odd_keys_nlp ''JJ'' = ''Case=Nom|Degree=Pos''"
  using is_number_float [of "''Degree''" odd_keys_nlp "''JJ''"]
  by (simp add: odd_keys_nlp_def float_eval)

section \<open>Construction\<close>

text \<open>
  C4. Constructing the formatter with a rename map that has a key other than
  \<^verbatim>\<open>conll_str\<close>, \<^verbatim>\<open>conll\<close> and \<^verbatim>\<open>conll_pd\<close> raises \<^verbatim>\<open>KeyError\<close>, whose
  message lists these three keys; no formatter comes out of \<^verbatim>\<open>__init__\<close>, so none
  can be applied to a document. A rename map with recognised keys only is accepted: the
  formatter keeps the three keys, each with the name the map gives it last, or its
  default.
\<close>

theorem init_ext_names:
  "(\<not> set (map fst e) \<subseteq> set [''conll_str'', ''conll'', ''conll_pd''] \<longrightarrow>
      init nlp conv (Some e) hdrs no_pd pd = Inl (KeyError [''conll_str'', ''conll'', ''conll_pd''])) \<and>
   (set (map fst e) \<subseteq> set [''conll_str'', ''conll'', ''conll_pd''] \<longrightarrow>
      (\<exists>fmt. init nlp conv (Some e) hdrs no_pd pd = Inr fmt \<and>
         map fst (ext_names fmt) = [''conll_str'', ''conll'', ''conll_pd''] \<and>
         (\<forall>k. map_of (ext_names fmt) k =
                (case map_of (rev e) k of
                   None \<Rightarrow> map_of default_ext_names k
                 | Some v \<Rightarrow> Some v))))"
proof -
  have keys: "map fst default_ext_names = [''conll_str'', ''conll'', ''conll_pd'']"
    by (simp add: default_ext_names_def)
  have bad: "init nlp conv (Some e) hdrs no_pd pd = Inl (KeyError [''conll_str'', ''conll'', ''conll_pd''])"
    if "\<not> set (map fst e) \<subseteq> set [''conll_str'', ''conll'', ''conll_pd'']"
  proof -
    from that have ne: "e \<noteq> []" by auto
    from that keys have "\<not> set (map fst e) \<subseteq> set (map fst default_ext_names)" by simp
    from merge_dicts_strict_bad[OF this] ne keys show ?thesis by (simp add: init_def)
  qed
  have good: "\<exists>fmt. init nlp conv (Some e) hdrs no_pd pd = Inr fmt \<and>
         map fst (ext_names fmt) = [''conll_str'', ''conll'', ''conll_pd''] \<and>
         (\<forall>k. map_of (ext_names fmt) k =
                (case map_of (rev e) k of
                   None \<Rightarrow> map_of default_ext_names k
                 | Some v \<Rightarrow> Some v))"
    if "set (map fst e) \<subseteq> set [''conll_str'', ''conll'', ''conll_pd'']"
  proof (cases "e = []")
    case True
    then show ?thesis using keys by (simp add: init_def)
  next
    case False
    from that keys have "set (map fst e) \<subseteq> set (map fst default_ext_names)" by simp
    from merge_dicts_strict_ok[OF this] obtain d where
      "merge_dicts_strict default_ext_names e = Inr d" "map fst d = map fst default_ext_names"
      "\<forall>k. map_of d k = (case map_of (rev e) k of None \<Rightarrow> map_of default_ext_names k | Some v \<Rightarrow> Some v)"
      by blast
    then show ?thesis using False keys by (simp add: init_def)
  qed
  from bad good show ?thesis by blast
qed

theorem init_ext_names_witness:
  "init \<lparr>tag_map = None\<rparr> None (Some [(''bogus'', ''x'')]) False False True
     = Inl (KeyError [''conll_str'', ''conll'', ''conll_pd'']) \<and>
   (\<exists>fmt. init \<lparr>tag_map = None\<rparr> None (Some [(''conll'', ''conll_dict''), (''conll_pd'', ''conll_pandas'')]) False False True = Inr fmt \<and>
      map_of (ext_names fmt) ''conll'' = Some ''conll_dict'' \<and>
      map_of (ext_names fmt) ''conll_pd'' = Some ''conll_pandas'' \<and>
      map_of (ext_names fmt) ''conll_str'' = Some ''conll_str'')"
proof -
  have "init \<lparr>tag_map = None\<rparr> None (Some [(''bogus'', ''x'')]) False False True
     = Inl (KeyError [''conll_str'', ''conll'', ''conll_pd''])"
    using init_ext_names [of "[(''bogus'', ''x'')]" "\<lparr>tag_map = None\<rparr>" None False False True]
    by simp
  moreover have "\<exists>fmt. init \<lparr>tag_map = None\<rparr> None (Some [(''conll'', ''conll_dict''), (''conll_pd'', ''conll_pandas'')]) False False True = Inr fmt \<and>
      map_of (ext_names fmt) ''conll'' = Some ''conll_dict'' \<and>
      map_of (ext_names fmt) ''conll_pd'' = Some ''conll_pandas'' \<and>
      map_of (ext_names fmt) ''conll_str'' = Some ''conll_str''"
  proof -
    from init_ext_names [of "[(''conll'', ''conll_dict''), (''conll_pd'', ''conll_pandas'')]" "\<lparr>tag_map = None\<rparr>" None False False True]
    obtain fmt where
      a: "init \<lparr>tag_map = None\<rparr> None (Some [(''conll'', ''conll_dict''), (''conll_pd'', ''conll_pandas'')]) False False True = Inr fmt"
      and b: "\<And>k. map_of (ext_names fmt) k =
                (case map_of (rev [(''conll'', ''conll_dict''), (''conll_pd'', ''conll_pandas'')]) k of
                   None \<Rightarrow> map_of default_ext_names k
                 | Some v \<Rightarrow> Some v)"
      by auto
    have "map_of (ext_names fmt) ''conll'' = Some ''conll_dict''"
      by (simp add: b)
    moreover have "map_of (ext_names fmt) ''conll_pd'' = Some ''conll_pandas''"
      by (simp add: b)
    moreover have "map_of (ext_names fmt) ''conll_str'' = Some ''conll_str''"
      by (simp add: b default_ext_names_def)
    ultimately show ?thesis using a by blast
  qed
  ultimately show ?thesis by blast
qed

lemma spec_convert_Nil: "spec_convert [] k v = v"
  by (simp add: spec_convert_def)

lemma map_spec_convert_Nil: "map (\<lambda>(k, v). (k, spec_convert [] k v)) d = d"
  by (induction d) (auto simp: spec_convert_Nil)

lemma map_conll_Some:
  "conversion_maps fmt = Some conv \<Longrightarrow> map_conll fmt d = Inr (converted fmt d)"
  by (simp add: map_conll_def converted_def map_items_spec)

lemma token_conll_d_eq:
  "token_conll_d fmt sent token idx =
     (case head_idx sent token of
        Inl e \<Rightarrow> Inl e
      | Inr h \<Rightarrow> Inr (converted fmt (zip CONLL_FIELD_NAMES (token_conll fmt token idx h))))"
proof (cases "conversion_maps fmt")
  case None
  then show ?thesis by (simp add: token_conll_d_def converted_def split: sum.splits)
next
  case (Some conv)
  then show ?thesis
    by (cases "conv = []")
      (simp_all add: token_conll_d_def map_conll_Some Let_def split: sum.splits,
       simp add: converted_def map_spec_convert_Nil)
qed

lemma map_fst_converted: "map fst (converted fmt d) = map fst d"
  by (auto simp: converted_def split: option.splits)

lemma length_converted: "length (converted fmt d) = length d"
  by (auto simp: converted_def split: option.splits)

lemma head_idx_total: "toks sent \<noteq> [] \<Longrightarrow> \<exists>h. head_idx sent token = Inr h"
  by (cases "toks sent") (simp_all add: head_idx_def)

lemma token_conll_d_total: "toks sent \<noteq> [] \<Longrightarrow> \<exists>d. token_conll_d fmt sent token idx = Inr d"
  using head_idx_total [of sent token] by (auto simp: token_conll_d_eq)


lemma field_names: "length CONLL_FIELD_NAMES = 10" "distinct CONLL_FIELD_NAMES"
  by (simp_all add: CONLL_FIELD_NAMES_def)

lemma length_token_conll: "length (token_conll fmt token idx h) = 10"
  by (simp add: token_conll_def)

lemma token_conll_d_keys:
  assumes "token_conll_d fmt sent token idx = Inr d"
  shows "map fst d = CONLL_FIELD_NAMES"
proof -
  from assms obtain h where
    d: "d = converted fmt (zip CONLL_FIELD_NAMES (token_conll fmt token idx h))"
    by (auto simp: token_conll_d_eq split: sum.splits)
  show ?thesis
    unfolding d by (simp add: map_fst_converted field_names length_token_conll)
qed

section \<open>Conversion maps\<close>

text \<open>
  C6. With conversion maps configured, \<^verbatim>\<open>_map_conll\<close> raises nothing and returns the
  record in which every field is converted as the specification says: when the field
  name has a conversion map and the value is a key of it, the value is replaced by the
  mapped one, and in every other case it stays. The record of a token is the ten derived
  fields converted so.
\<close>

theorem map_conll_spec:
  assumes "conversion_maps fmt = Some conv"
  shows "map_conll fmt d = Inr (map (\<lambda>(k, v). (k, spec_convert conv k v)) d) \<and>
         (\<forall>h. head_idx sent token = Inr h \<longrightarrow>
            token_conll_d fmt sent token idx =
              Inr (map (\<lambda>(k, v). (k, spec_convert conv k v))
                     (zip CONLL_FIELD_NAMES (token_conll fmt token idx h))))"
  using assms by (simp add: map_conll_def map_items_spec token_conll_d_eq converted_def)

theorem map_conll_spec_witness:
  "map_conll (mk_formatter (Some noun_conv) False False)
       [(''upostag'', VStr ''NOUN''), (''xpostag'', VStr ''NOUN''), (''upostag'', VStr ''VERB'')]
     = Inr [(''upostag'', VStr ''N''), (''xpostag'', VStr ''NOUN''), (''upostag'', VStr ''VERB'')]"
  using map_conll_spec [of "mk_formatter (Some noun_conv) False False" noun_conv
      "[(''upostag'', VStr ''NOUN''), (''xpostag'', VStr ''NOUN''), (''upostag'', VStr ''VERB'')]"]
  by (simp add: mk_formatter_def noun_conv_def spec_convert_def)

lemmas str_eval = strip_def lower_def lower_chr_def isspace_def str_int_def str_nat.simps
  digit_chr_def

lemmas sample_defs = mk_token_def mk_span_def mk_doc_def mk_formatter_def tok_she_def
  tok_sleeps_def sent_she_def

lemma names_default: "names (mk_formatter conv hdrs pd) ''conll'' ''conll_str'' ''conll_pd''"
  by (simp add: names_def ext_name_def getitem_def mk_formatter_def default_ext_names_def)

lemma init_names:
  assumes "init nlp conv e hdrs no_pd pd = Inr fmt"
  shows "\<exists>nc ns np. names fmt nc ns np"
proof -
  have dk: "map fst default_ext_names = [''conll_str'', ''conll'', ''conll_pd'']"
    by (simp add: default_ext_names_def)
  have keys: "map fst (ext_names fmt) = [''conll_str'', ''conll'', ''conll_pd'']"
  proof (cases "e = None \<or> e = Some []")
    case True
    with assms have "ext_names fmt = default_ext_names" by (auto simp: init_def)
    with dk show ?thesis by simp
  next
    case False
    then obtain m where m: "e = Some m" "m \<noteq> []" by auto
    show ?thesis
    proof (cases "set (map fst m) \<subseteq> set (map fst default_ext_names)")
      case True
      from merge_dicts_strict_ok [OF True] obtain d where
        "merge_dicts_strict default_ext_names m = Inr d" "map fst d = map fst default_ext_names"
        by blast
      with assms m have "ext_names fmt = d" by (auto simp: init_def)
      with \<open>map fst d = map fst default_ext_names\<close> dk show ?thesis by simp
    next
      case False
      from merge_dicts_strict_bad [OF False] assms m show ?thesis by (simp add: init_def)
    qed
  qed
  have "\<exists>n. map_of (ext_names fmt) k = Some n"
    if "k \<in> set [''conll_str'', ''conll'', ''conll_pd'']" for k
  proof -
    from that keys have "k \<in> fst ` set (ext_names fmt)" by (metis list.set_map)
    then show ?thesis by (metis domD dom_map_of_conv_image_fst)
  qed
  then show ?thesis by (simp add: names_def ext_name_def getitem_def split: option.splits)
qed

lemma set_token_conll_eq:
  assumes "names fmt nc ns np"
  shows "set_token_conll fmt sent token idx =
     (case token_conll_d fmt sent token idx of
        Inl e \<Rightarrow> Inl e
      | Inr d \<Rightarrow>
          Inr (token\<lparr>t_ext :=
                 (if pandas fmt
                  then (t_ext token)(nc := EDict d, ns := EStr (token_conll_str d), np := ESeries d)
                  else (t_ext token)(nc := EDict d, ns := EStr (token_conll_str d)))\<rparr>))"
  using assms by (simp add: set_token_conll_def names_def Let_def split: sum.splits)

lemma set_token_conll_total:
  "names fmt nc ns np \<Longrightarrow> toks sent \<noteq> [] \<Longrightarrow> \<exists>t'. set_token_conll fmt sent token idx = Inr t'"
  using token_conll_d_total [of sent fmt token idx] by (auto simp: set_token_conll_eq)

lemma token_str_attr:
  assumes "names fmt nc ns np" and "\<not> (pandas fmt \<and> np = ns)"
    and "set_token_conll fmt sent token idx = Inr t'"
  shows "\<exists>d. token_conll_d fmt sent token idx = Inr d \<and> t_ext t' ns = EStr (token_conll_str d)"
  using assms(2,3) by (auto simp: set_token_conll_eq [OF assms(1)] split: sum.splits if_splits)

lemma token_rec_attr:
  assumes "names fmt nc ns np" and "ns \<noteq> nc" and "pandas fmt \<longrightarrow> np \<noteq> nc"
    and "set_token_conll fmt sent token idx = Inr t'"
  shows "\<exists>d. token_conll_d fmt sent token idx = Inr d \<and> t_ext t' nc = EDict d"
  using assms(2,3,4) by (auto simp: set_token_conll_eq [OF assms(1)] split: sum.splits if_splits)

section \<open>Token records\<close>

text \<open>
  C8. The record \<^verbatim>\<open>_set_token_conll\<close> builds for a token exists for every token of a
  sentence and has exactly the ten keys of \<^verbatim>\<open>CONLL_FIELD_NAMES\<close>, in that order, each
  bound to an integer or a string; without conversion maps the id and the head are
  integers and the other eight values strings. \<^verbatim>\<open>_set_token_conll\<close> returns, and
  the token holds this record under the record name whenever neither the string nor, with
  pandas, the table is stored under the same name after it.
\<close>

theorem token_record_shape:
  "(toks sent \<noteq> [] \<longrightarrow> (\<exists>d. token_conll_d fmt sent token idx = Inr d)) \<and>
   (\<forall>d. token_conll_d fmt sent token idx = Inr d \<longrightarrow>
      map fst d = CONLL_FIELD_NAMES \<and> length d = 10 \<and> distinct (map fst d) \<and>
      (\<forall>k\<in>set CONLL_FIELD_NAMES.
         \<exists>v. map_of d k = Some v \<and> ((\<exists>n. v = VInt n) \<or> (\<exists>s. v = VStr s))) \<and>
      (conversion_maps fmt = None \<longrightarrow>
         (\<exists>n h. map_of d ''id'' = Some (VInt n) \<and> map_of d ''head'' = Some (VInt h)) \<and>
         (\<forall>k\<in>set CONLL_FIELD_NAMES - {''id'', ''head''}. \<exists>s. map_of d k = Some (VStr s)))) \<and>
   (\<forall>nc ns np. names fmt nc ns np \<and> toks sent \<noteq> [] \<longrightarrow>
      (\<exists>t'. set_token_conll fmt sent token idx = Inr t')) \<and>
   (\<forall>nc ns np t'. names fmt nc ns np \<and> ns \<noteq> nc \<and> (pandas fmt \<longrightarrow> np \<noteq> nc) \<and>
        set_token_conll fmt sent token idx = Inr t' \<longrightarrow>
      (\<exists>d. token_conll_d fmt sent token idx = Inr d \<and> t_ext t' nc = EDict d))"
proof -
  have a: "toks sent \<noteq> [] \<longrightarrow> (\<exists>d. token_conll_d fmt sent token idx = Inr d)"
    using token_conll_d_total by blast
  have b: "map fst d = CONLL_FIELD_NAMES \<and> length d = 10 \<and> distinct (map fst d) \<and>
      (\<forall>k\<in>set CONLL_FIELD_NAMES.
         \<exists>v. map_of d k = Some v \<and> ((\<exists>n. v = VInt n) \<or> (\<exists>s. v = VStr s))) \<and>
      (conversion_maps fmt = None \<longrightarrow>
         (\<exists>n h. map_of d ''id'' = Some (VInt n) \<and> map_of d ''head'' = Some (VInt h)) \<and>
         (\<forall>k\<in>set CONLL_FIELD_NAMES - {''id'', ''head''}. \<exists>s. map_of d k = Some (VStr s)))"
    if d: "token_conll_d fmt sent token idx = Inr d" for d
  proof -
    have keys: "map fst d = CONLL_FIELD_NAMES" using d by (rule token_conll_d_keys)
    then have len: "length d = 10" using field_names(1) by (metis length_map)
    have bound: "\<exists>v. map_of d k = Some v \<and> ((\<exists>n. v = VInt n) \<or> (\<exists>s. v = VStr s))"
      if "k \<in> set CONLL_FIELD_NAMES" for k
    proof -
      from that keys have "k \<in> fst ` set d" by (metis list.set_map)
      then obtain v where "map_of d k = Some v" by (metis domD dom_map_of_conv_image_fst)
      then show ?thesis by (cases v) auto
    qed
    have typed: "(\<exists>n h. map_of d ''id'' = Some (VInt n) \<and> map_of d ''head'' = Some (VInt h)) \<and>
         (\<forall>k\<in>set CONLL_FIELD_NAMES - {''id'', ''head''}. \<exists>s. map_of d k = Some (VStr s))"
      if "conversion_maps fmt = None"
    proof -
      from d obtain h where "d = converted fmt (zip CONLL_FIELD_NAMES (token_conll fmt token idx h))"
        by (auto simp: token_conll_d_eq split: sum.splits)
      with that have "d = zip CONLL_FIELD_NAMES (token_conll fmt token idx h)"
        by (simp add: converted_def)
      then show ?thesis by (auto simp: CONLL_FIELD_NAMES_def token_conll_def)
    qed
    from keys len field_names(2) bound typed show ?thesis by auto
  qed
  have c: "\<forall>nc ns np. names fmt nc ns np \<and> toks sent \<noteq> [] \<longrightarrow>
      (\<exists>t'. set_token_conll fmt sent token idx = Inr t')"
    using set_token_conll_total by blast
  have e: "\<forall>nc ns np t'. names fmt nc ns np \<and> ns \<noteq> nc \<and> (pandas fmt \<longrightarrow> np \<noteq> nc) \<and>
        set_token_conll fmt sent token idx = Inr t' \<longrightarrow>
      (\<exists>d. token_conll_d fmt sent token idx = Inr d \<and> t_ext t' nc = EDict d)"
    using token_rec_attr by blast
  from a b c e show ?thesis by blast
qed

theorem token_record_shape_witness:
  "\<exists>t' d. set_token_conll (mk_formatter None False False) sent_she tok_she 1 = Inr t' \<and>
          t_ext t' ''conll'' = EDict d \<and> map fst d = CONLL_FIELD_NAMES \<and> length d = 10 \<and>
          map_of d ''id'' = Some (VInt 1)"
proof -
  let ?F = "mk_formatter None False False"
  note spec = token_record_shape [of sent_she ?F tok_she 1]
  have ne: "toks sent_she \<noteq> []" by (simp add: sample_defs)
  have nm: "names ?F ''conll'' ''conll_str'' ''conll_pd''" by (rule names_default)
  have np: "\<not> pandas ?F" by (simp add: pandas_def mk_formatter_def)
  from spec ne nm obtain t' where t': "set_token_conll ?F sent_she tok_she 1 = Inr t'"
    by blast
  have "''conll_str'' \<noteq> ''conll''" by simp
  with spec nm np t' obtain d where d: "token_conll_d ?F sent_she tok_she 1 = Inr d"
    and st: "t_ext t' ''conll'' = EDict d"
    by blast
  from spec d have k: "map fst d = CONLL_FIELD_NAMES" "length d = 10" by blast+
  from d have "map_of d ''id'' = Some (VInt 1)"
    by (auto simp: token_conll_d_def head_idx_def token_conll_def CONLL_FIELD_NAMES_def
        sample_defs str_eval split: if_splits)
  with t' st k show ?thesis by blast
qed

lemma contiguous_head_bounds:
  assumes "toks sent = t0 # ts" and "contiguous sent" and "head_in_sent sent token"
  shows "tok_i t0 \<le> tok_head_i token" and "tok_head_i token < tok_i t0 + int (length (toks sent))"
proof -
  from assms(1,2) have "map tok_i (toks sent) = map (\<lambda>k. tok_i t0 + int k) [0..<length (toks sent)]"
    by (simp add: contiguous_def)
  with assms(3) have "tok_head_i token \<in> (\<lambda>k. tok_i t0 + int k) ` {0..<length (toks sent)}"
    unfolding head_in_sent_def by (metis list.set_map set_upt)
  then obtain k where "k < length (toks sent)" "tok_head_i token = tok_i t0 + int k"
    by auto
  then show "tok_i t0 \<le> tok_head_i token" and "tok_head_i token < tok_i t0 + int (length (toks sent))"
    by simp_all
qed

lemma token_conll_d_head:
  assumes "token_conll_d fmt sent token idx = Inr d" and "conversion_maps fmt = None"
  shows "\<exists>h. head_idx sent token = Inr h \<and> map_of d ''head'' = Some (VInt h)"
proof -
  from assms(1) obtain h where h: "head_idx sent token = Inr h"
    and d: "d = converted fmt (zip CONLL_FIELD_NAMES (token_conll fmt token idx h))"
    by (auto simp: token_conll_d_eq split: sum.splits)
  have "map_of d ''head'' = Some (VInt h)"
    unfolding d using assms(2)
    by (simp add: converted_def CONLL_FIELD_NAMES_def token_conll_def)
  with h show ?thesis by blast
qed

section \<open>Head index\<close>

text \<open>
  C1. The head index of a token is 0 when its dependency label, lowercased and stripped,
  is \<^verbatim>\<open>root\<close>. Otherwise it is 1 plus the document position of the head minus the
  document position of the first token of the sentence, and when the head is a token of
  the sentence this number is at least 1 and at most the number of tokens of the
  sentence. Without conversion maps it is the value of the field \<^verbatim>\<open>head\<close> of the
  record of the token, which the token holds under the record name unless that name is
  written again.
\<close>

theorem head_idx_spec:
  "(strip (lower (tok_dep token)) = ''root'' \<longrightarrow> head_idx sent token = Inr 0) \<and>
   (strip (lower (tok_dep token)) \<noteq> ''root'' \<longrightarrow>
      (\<forall>t0 ts. toks sent = t0 # ts \<longrightarrow>
         head_idx sent token = Inr (1 + (tok_head_i token - tok_i t0)) \<and>
         (contiguous sent \<and> head_in_sent sent token \<longrightarrow>
            1 \<le> 1 + (tok_head_i token - tok_i t0) \<and>
            1 + (tok_head_i token - tok_i t0) \<le> int (length (toks sent))))) \<and>
   (\<forall>d. token_conll_d fmt sent token idx = Inr d \<and> conversion_maps fmt = None \<longrightarrow>
      (\<exists>h. head_idx sent token = Inr h \<and> map_of d ''head'' = Some (VInt h))) \<and>
   (\<forall>nc ns np t'. names fmt nc ns np \<and> ns \<noteq> nc \<and> (pandas fmt \<longrightarrow> np \<noteq> nc) \<and>
        set_token_conll fmt sent token idx = Inr t' \<and> conversion_maps fmt = None \<longrightarrow>
      (\<exists>d h. t_ext t' nc = EDict d \<and> head_idx sent token = Inr h \<and>
             map_of d ''head'' = Some (VInt h)))"
proof -
  have a: "strip (lower (tok_dep token)) = ''root'' \<longrightarrow> head_idx sent token = Inr 0"
    by (simp add: head_idx_def)
  have b: "head_idx sent token = Inr (1 + (tok_head_i token - tok_i t0)) \<and>
         (contiguous sent \<and> head_in_sent sent token \<longrightarrow>
            1 \<le> 1 + (tok_head_i token - tok_i t0) \<and>
            1 + (tok_head_i token - tok_i t0) \<le> int (length (toks sent)))"
    if "strip (lower (tok_dep token)) \<noteq> ''root''" and "toks sent = t0 # ts" for t0 ts
  proof -
    have "head_idx sent token = Inr (1 + (tok_head_i token - tok_i t0))"
      using that by (simp add: head_idx_def)
    moreover have "1 \<le> 1 + (tok_head_i token - tok_i t0) \<and>
            1 + (tok_head_i token - tok_i t0) \<le> int (length (toks sent))"
      if "contiguous sent" "head_in_sent sent token"
      using contiguous_head_bounds [OF \<open>toks sent = t0 # ts\<close> that] by simp
    ultimately show ?thesis by blast
  qed
  have c: "\<exists>h. head_idx sent token = Inr h \<and> map_of d ''head'' = Some (VInt h)"
    if "token_conll_d fmt sent token idx = Inr d" and "conversion_maps fmt = None" for d
    using token_conll_d_head [OF that] .
  have e: "\<exists>d h. t_ext t' nc = EDict d \<and> head_idx sent token = Inr h \<and>
             map_of d ''head'' = Some (VInt h)"
    if "names fmt nc ns np" "ns \<noteq> nc" "pandas fmt \<longrightarrow> np \<noteq> nc"
      "set_token_conll fmt sent token idx = Inr t'" "conversion_maps fmt = None"
    for nc ns np t'
  proof -
    from token_rec_attr [OF that(1,2,3,4)] obtain d where
      d: "token_conll_d fmt sent token idx = Inr d" and t: "t_ext t' nc = EDict d" by blast
    from token_conll_d_head [OF d that(5)] t show ?thesis by blast
  qed
  from a b c e show ?thesis by blast
qed

theorem head_idx_spec_witness:
  "head_idx sent_she tok_sleeps = Inr 0 \<and> head_idx sent_she tok_she = Inr 2 \<and>
   contiguous sent_she \<and> head_in_sent sent_she tok_she \<and>
   (2::int) \<le> int (length (toks sent_she))"
proof -
  have root: "strip (lower (tok_dep tok_sleeps)) = ''root''"
    by (simp add: sample_defs str_eval)
  have nonroot: "strip (lower (tok_dep tok_she)) \<noteq> ''root''"
    by (simp add: sample_defs str_eval)
  have ts: "toks sent_she = tok_she # [tok_sleeps]" by (simp add: sample_defs)
  have c: "contiguous sent_she" by (simp add: contiguous_def sample_defs upt_rec)
  have h: "head_in_sent sent_she tok_she" by (simp add: head_in_sent_def sample_defs)
  have "head_idx sent_she tok_sleeps = Inr 0"
    using head_idx_spec [of tok_sleeps sent_she] root by blast
  moreover have "head_idx sent_she tok_she = Inr (1 + (tok_head_i tok_she - tok_i tok_she)) \<and>
     1 + (tok_head_i tok_she - tok_i tok_she) \<le> int (length (toks sent_she))"
    using head_idx_spec [of tok_she sent_she] nonroot ts c h by blast
  moreover have "1 + (tok_head_i tok_she - tok_i tok_she) = 2" by (simp add: sample_defs)
  ultimately show ?thesis using c h by simp
qed

lemma token_conll_str_split:
  assumes "length d = 10" and "\<forall>(k, v)\<in>set d. TAB \<notin> set (py_str v)"
  shows "split TAB (join [TAB] (map (\<lambda>(k, v). py_str v) d)) = map (\<lambda>(k, v). py_str v) d"
proof (rule split_join)
  from assms(1) show "map (\<lambda>(k, v). py_str v) d \<noteq> []" by auto
  from assms(2) show "\<forall>f\<in>set (map (\<lambda>(k, v). py_str v) d). TAB \<notin> set f" by auto
qed

section \<open>Token lines\<close>

text \<open>
  C5, as amended. The string of a token is the string coercions of the ten values of its
  record, in the order of the fields, joined by tabs and ended by a newline. When no
  coerced value contains a tab, splitting the line on tabs gives back exactly these ten
  strings. A value with a tab in it (the text of a white-space token) is not escaped, and
  the line then splits into more than ten fields. The token holds the string under the
  string name, unless pandas is in use and the table is stored under the same name.
\<close>

theorem token_line_fields:
  "(toks sent \<noteq> [] \<longrightarrow> (\<exists>d. token_conll_d fmt sent token idx = Inr d)) \<and>
   (\<forall>d. token_conll_d fmt sent token idx = Inr d \<longrightarrow>
      (\<exists>line. token_conll_str d = line @ [NL] \<and>
         line = join [TAB] (map (\<lambda>(k, v). py_str v) d) \<and>
         map fst d = CONLL_FIELD_NAMES \<and>
         ((\<forall>(k, v)\<in>set d. TAB \<notin> set (py_str v)) \<longrightarrow>
            split TAB line = map (\<lambda>(k, v). py_str v) d \<and> length (split TAB line) = 10))) \<and>
   (\<forall>nc ns np. names fmt nc ns np \<and> toks sent \<noteq> [] \<longrightarrow>
      (\<exists>t'. set_token_conll fmt sent token idx = Inr t')) \<and>
   (\<forall>nc ns np t'. names fmt nc ns np \<and> \<not> (pandas fmt \<and> np = ns) \<and>
        set_token_conll fmt sent token idx = Inr t' \<longrightarrow>
      (\<exists>d. token_conll_d fmt sent token idx = Inr d \<and> t_ext t' ns = EStr (token_conll_str d)))"
proof -
  have a: "toks sent \<noteq> [] \<longrightarrow> (\<exists>d. token_conll_d fmt sent token idx = Inr d)"
    using token_conll_d_total by blast
  have b: "\<exists>line. token_conll_str d = line @ [NL] \<and>
         line = join [TAB] (map (\<lambda>(k, v). py_str v) d) \<and>
         map fst d = CONLL_FIELD_NAMES \<and>
         ((\<forall>(k, v)\<in>set d. TAB \<notin> set (py_str v)) \<longrightarrow>
            split TAB line = map (\<lambda>(k, v). py_str v) d \<and> length (split TAB line) = 10)"
    if d: "token_conll_d fmt sent token idx = Inr d" for d
  proof -
    have keys: "map fst d = CONLL_FIELD_NAMES" using d by (rule token_conll_d_keys)
    then have len: "length d = 10" using field_names(1) by (metis length_map)
    have "split TAB (join [TAB] (map (\<lambda>(k, v). py_str v) d)) = map (\<lambda>(k, v). py_str v) d \<and>
          length (split TAB (join [TAB] (map (\<lambda>(k, v). py_str v) d))) = 10"
      if "\<forall>(k, v)\<in>set d. TAB \<notin> set (py_str v)"
      using token_conll_str_split [OF len that] len by simp
    with keys show ?thesis by (auto simp: token_conll_str_def)
  qed
  have c: "\<forall>nc ns np. names fmt nc ns np \<and> toks sent \<noteq> [] \<longrightarrow>
      (\<exists>t'. set_token_conll fmt sent token idx = Inr t')"
    using set_token_conll_total by blast
  have e: "\<forall>nc ns np t'. names fmt nc ns np \<and> \<not> (pandas fmt \<and> np = ns) \<and>
        set_token_conll fmt sent token idx = Inr t' \<longrightarrow>
      (\<exists>d. token_conll_d fmt sent token idx = Inr d \<and> t_ext t' ns = EStr (token_conll_str d))"
    using token_str_attr by blast
  from a b c e show ?thesis by blast
qed

lemma she_record:
  "token_conll_d (mk_formatter None False False) sent_she tok_she 1 =
     Inr [(''id'', VInt 1), (''form'', VStr ''She''), (''lemma'', VStr ''she''),
      (''upostag'', VStr ''PRON''), (''xpostag'', VStr ''PRP''), (''feats'', VStr ''_''),
      (''head'', VInt 2), (''deprel'', VStr ''nsubj''), (''deps'', VStr ''_''),
      (''misc'', VStr ''_'')]"
  by (simp add: token_conll_d_def head_idx_def token_conll_def
      get_morphology_def CONLL_FIELD_NAMES_def sample_defs str_eval)

theorem token_line_fields_witness:
  "\<exists>t' line. set_token_conll (mk_formatter None False False) sent_she tok_she 1 = Inr t' \<and>
      t_ext t' ''conll_str'' = EStr (line @ [NL]) \<and>
      split TAB line = [''1'', ''She'', ''she'', ''PRON'', ''PRP'', ''_'', ''2'', ''nsubj'', ''_'', ''_'']"
proof -
  let ?F = "mk_formatter None False False"
  let ?d = "[(''id'', VInt 1), (''form'', VStr ''She''), (''lemma'', VStr ''she''),
      (''upostag'', VStr ''PRON''), (''xpostag'', VStr ''PRP''), (''feats'', VStr ''_''),
      (''head'', VInt 2), (''deprel'', VStr ''nsubj''), (''deps'', VStr ''_''),
      (''misc'', VStr ''_'')]"
  note spec = token_line_fields [of sent_she ?F tok_she 1]
  have ne: "toks sent_she \<noteq> []" by (simp add: sample_defs)
  have nm: "names ?F ''conll'' ''conll_str'' ''conll_pd''" by (rule names_default)
  have np: "\<not> (pandas ?F \<and> ''conll_pd'' = ''conll_str'')" by simp
  from spec ne nm obtain t' where t': "set_token_conll ?F sent_she tok_she 1 = Inr t'"
    by blast
  from spec nm np t' obtain d where d: "token_conll_d ?F sent_she tok_she 1 = Inr d"
    and st: "t_ext t' ''conll_str'' = EStr (token_conll_str d)"
    by blast
  from d she_record have d': "d = ?d" by simp
  from spec d obtain line where l: "token_conll_str d = line @ [NL]"
    and sp: "(\<forall>(k, v)\<in>set d. TAB \<notin> set (py_str v)) \<longrightarrow> split TAB line = map (\<lambda>(k, v). py_str v) d"
    by blast
  have "\<forall>(k, v)\<in>set d. TAB \<notin> set (py_str v)"
    unfolding d' by (simp add: TAB_def str_eval)
  with sp have "split TAB line = map (\<lambda>(k, v). py_str v) d" by blast
  then have "split TAB line = [''1'', ''She'', ''she'', ''PRON'', ''PRP'', ''_'', ''2'', ''nsubj'', ''_'', ''_'']"
    unfolding d' by (simp add: str_eval)
  with t' st l show ?thesis by auto
qed

theorem token_line_fields_counterexample:
  "token_conll_d (mk_formatter None False False) sent_tab tok_tab 2 = Inr tab_record \<and>
   token_conll_str tab_record = tab_line @ [NL] \<and>
   token_attr (set_token_conll (mk_formatter None False False) sent_tab tok_tab 2) ''conll_str''
     = Inr (EStr (tab_line @ [NL])) \<and>
   length (split TAB tab_line) = 12"
  by (simp add: token_attr_def set_token_conll_def ext_name_def getitem_def default_ext_names_def
      token_conll_d_def head_idx_def token_conll_def
      get_morphology_def pandas_def CONLL_FIELD_NAMES_def mk_token_def mk_span_def
      mk_formatter_def tok_a_def tok_tab_def sent_tab_def tab_record_def tab_line_def
      token_conll_str_def TAB_def str_eval)

section \<open>Sentences\<close>

lemma str_join_map_EStr: "str_join sep (map (\<lambda>x. EStr (f x)) xs) = Inr (join sep (map f xs))"
  using str_join_EStr [of sep "map f xs"] by (simp add: comp_def)

lemma set_tokens_nth:
  "set_tokens fmt sent idx ts = Inr ts' \<Longrightarrow>
   length ts' = length ts \<and>
   (\<forall>k<length ts. set_token_conll fmt sent (ts ! k) (idx + int k) = Inr (ts' ! k))"
proof (induction ts arbitrary: idx ts')
  case Nil
  then show ?case by simp
next
  case (Cons t ts)
  from Cons.prems obtain t1 ts1 where
    t1: "set_token_conll fmt sent t idx = Inr t1"
    and ts1: "set_tokens fmt sent (idx + 1) ts = Inr ts1"
    and eq: "ts' = t1 # ts1"
    by (auto split: sum.splits)
  from Cons.IH [OF ts1] have len: "length ts1 = length ts"
    and nth: "\<And>k. k < length ts \<Longrightarrow> set_token_conll fmt sent (ts ! k) (idx + 1 + int k) = Inr (ts1 ! k)"
    by auto
  have "set_token_conll fmt sent ((t # ts) ! k) (idx + int k) = Inr (ts' ! k)"
    if "k < length (t # ts)" for k
  proof (cases k)
    case 0
    then show ?thesis using t1 eq by simp
  next
    case (Suc j)
    with that have "j < length ts" by simp
    from nth [OF this] show ?thesis using Suc eq by (simp add: algebra_simps)
  qed
  with len eq show ?case by simp
qed

lemma set_tokens_total:
  assumes "names fmt nc ns np"
  shows "(ts \<noteq> [] \<longrightarrow> toks sent \<noteq> []) \<Longrightarrow> \<exists>ts'. set_tokens fmt sent idx ts = Inr ts'"
proof (induction ts arbitrary: idx)
  case Nil
  then show ?case by simp
next
  case (Cons t ts)
  then have ne: "toks sent \<noteq> []" by simp
  from set_token_conll_total [OF assms ne] obtain t' where "set_token_conll fmt sent t idx = Inr t'"
    by blast
  moreover from Cons.IH [of "idx + 1"] ne obtain ts' where "set_tokens fmt sent (idx + 1) ts = Inr ts'"
    by blast
  ultimately show ?case by simp
qed

lemma set_tokens_attrs:
  assumes nm: "names fmt nc ns np"
  shows "set_tokens fmt sent idx ts = Inr ts' \<Longrightarrow>
   \<exists>ds. length ds = length ts \<and>
        (\<not> (pandas fmt \<and> np = ns) \<longrightarrow>
           map (\<lambda>t. t_ext t ns) ts' = map (\<lambda>d. EStr (token_conll_str d)) ds) \<and>
        (ns \<noteq> nc \<and> (pandas fmt \<longrightarrow> np \<noteq> nc) \<longrightarrow> map (\<lambda>t. t_ext t nc) ts' = map EDict ds)"
proof (induction ts arbitrary: idx ts')
  case Nil
  then show ?case by simp
next
  case (Cons t ts)
  from Cons.prems obtain t1 ts1 where
    t1: "set_token_conll fmt sent t idx = Inr t1"
    and ts1: "set_tokens fmt sent (idx + 1) ts = Inr ts1"
    and eq: "ts' = t1 # ts1"
    by (auto split: sum.splits)
  from t1 obtain d where d: "token_conll_d fmt sent t idx = Inr d"
    by (auto simp: set_token_conll_eq [OF nm] split: sum.splits)
  have s: "t_ext t1 ns = EStr (token_conll_str d)" if "\<not> (pandas fmt \<and> np = ns)"
    using token_str_attr [OF nm that t1] d by simp
  have r: "t_ext t1 nc = EDict d" if "ns \<noteq> nc" "pandas fmt \<longrightarrow> np \<noteq> nc"
    using token_rec_attr [OF nm that t1] d by simp
  from Cons.IH [OF ts1] obtain ds where
    ds: "length ds = length ts"
        "\<not> (pandas fmt \<and> np = ns) \<longrightarrow>
           map (\<lambda>t. t_ext t ns) ts1 = map (\<lambda>d. EStr (token_conll_str d)) ds"
        "ns \<noteq> nc \<and> (pandas fmt \<longrightarrow> np \<noteq> nc) \<longrightarrow> map (\<lambda>t. t_ext t nc) ts1 = map EDict ds"
    by blast
  have "length (d # ds) = length (t # ts) \<and>
        (\<not> (pandas fmt \<and> np = ns) \<longrightarrow>
           map (\<lambda>t. t_ext t ns) ts' = map (\<lambda>d. EStr (token_conll_str d)) (d # ds)) \<and>
        (ns \<noteq> nc \<and> (pandas fmt \<longrightarrow> np \<noteq> nc) \<longrightarrow> map (\<lambda>t. t_ext t nc) ts' = map EDict (d # ds))"
    using s r ds eq by auto
  then show ?case by blast
qed

lemma set_span_conll_Inr:
  assumes nm: "names fmt nc ns np" and ok: "\<not> (pandas fmt \<and> np = ns)"
    and s': "set_span_conll fmt span idx = Inr s'"
  shows "\<exists>ds. set_tokens fmt span 1 (toks span) = Inr (toks s') \<and>
           length ds = length (toks span) \<and>
           map (\<lambda>t. t_ext t ns) (toks s') = map (\<lambda>d. EStr (token_conll_str d)) ds \<and>
           s_ext s' ns = EStr (headers fmt span idx @ concat (map token_conll_str ds)) \<and>
           (ns \<noteq> nc \<and> (pandas fmt \<longrightarrow> np \<noteq> nc) \<longrightarrow> s_ext s' nc = EList (map EDict ds)) \<and>
           (pandas fmt \<longrightarrow> (\<exists>df. s_ext s' np = EFrame df))"
proof -
  from nm have n: "ext_name fmt ''conll'' = Inr nc" "ext_name fmt ''conll_str'' = Inr ns"
    "ext_name fmt ''conll_pd'' = Inr np"
    by (simp_all add: names_def)
  from s' obtain ts where ts: "set_tokens fmt span 1 (toks span) = Inr ts"
    by (auto simp: set_span_conll_def split: sum.splits)
  from set_tokens_attrs [OF nm ts] ok obtain ds where
    ds: "length ds = length (toks span)"
        "map (\<lambda>t. t_ext t ns) ts = map (\<lambda>d. EStr (token_conll_str d)) ds"
        "ns \<noteq> nc \<and> (pandas fmt \<longrightarrow> np \<noteq> nc) \<longrightarrow> map (\<lambda>t. t_ext t nc) ts = map EDict ds"
    by blast
  have j: "str_join [] (map (\<lambda>t. t_ext t ns) ts) = Inr (concat (map token_conll_str ds))"
    unfolding ds(2) by (simp add: str_join_map_EStr join_nil_sep)
  from s' ts j n ok have
    "toks s' = ts \<and>
     s_ext s' ns = EStr (headers fmt span idx @ concat (map token_conll_str ds)) \<and>
     (ns \<noteq> nc \<and> (pandas fmt \<longrightarrow> np \<noteq> nc) \<longrightarrow> s_ext s' nc = EList (map (\<lambda>t. t_ext t nc) ts)) \<and>
     (pandas fmt \<longrightarrow> (\<exists>df. s_ext s' np = EFrame df))"
    by (auto simp: set_span_conll_def Let_def split: if_splits)
  with ts ds show ?thesis by auto
qed

lemma set_span_conll_total:
  assumes nm: "names fmt nc ns np" and ok: "\<not> (pandas fmt \<and> np = ns)"
  shows "\<exists>s'. set_span_conll fmt span idx = Inr s'"
proof -
  from nm have n: "ext_name fmt ''conll'' = Inr nc" "ext_name fmt ''conll_str'' = Inr ns"
    "ext_name fmt ''conll_pd'' = Inr np"
    by (simp_all add: names_def)
  from set_tokens_total [OF nm, of "toks span" span 1] obtain ts where
    ts: "set_tokens fmt span 1 (toks span) = Inr ts" by blast
  from set_tokens_attrs [OF nm ts] ok obtain ds where
    "map (\<lambda>t. t_ext t ns) ts = map (\<lambda>d. EStr (token_conll_str d)) ds" by blast
  then have "str_join [] (map (\<lambda>t. t_ext t ns) ts) = Inr (join [] (map token_conll_str ds))"
    by (simp add: str_join_map_EStr)
  with ts n show ?thesis by (simp add: set_span_conll_def Let_def)
qed

text \<open>
  C7, as amended. Unless pandas is in use and the table attribute has the name of the
  string attribute, \<^verbatim>\<open>_set_span_conll\<close> returns, the tokens of the result are the
  tokens of the sentence formatted in order with the indices from 1, and the string of the
  sentence is the concatenation of their lines in that order, preceded, when headers are
  included, by the line \<^verbatim>\<open># sent_id = \<close> with the index of the sentence and the line
  \<^verbatim>\<open># text = \<close> with the text of the sentence. With pandas and the table stored
  under the name of the string, the tokens hold a \<^verbatim>\<open>Series\<close> where the join reads
  their strings, and the join raises \<^verbatim>\<open>TypeError\<close>.
\<close>

theorem span_conll_str:
  assumes "names fmt nc ns np" and "\<not> (pandas fmt \<and> np = ns)"
  shows
  "(\<exists>s'. set_span_conll fmt span idx = Inr s') \<and>
   (\<forall>s'. set_span_conll fmt span idx = Inr s' \<longrightarrow>
      (\<exists>lines. map (\<lambda>t. t_ext t ns) (toks s') = map EStr lines \<and>
         length (toks s') = length (toks span) \<and>
         (\<forall>k<length (toks span).
            set_token_conll fmt span (toks span ! k) (1 + int k) = Inr (toks s' ! k)) \<and>
         (include_headers fmt \<longrightarrow>
            s_ext s' ns =
              EStr (''# sent_id = '' @ str_int idx @ [NL] @ ''# text = '' @ span_text span @ [NL]
                    @ concat lines)) \<and>
         (\<not> include_headers fmt \<longrightarrow> s_ext s' ns = EStr (concat lines))))"
proof -
  have "\<exists>lines. map (\<lambda>t. t_ext t ns) (toks s') = map EStr lines \<and>
         length (toks s') = length (toks span) \<and>
         (\<forall>k<length (toks span).
            set_token_conll fmt span (toks span ! k) (1 + int k) = Inr (toks s' ! k)) \<and>
         (include_headers fmt \<longrightarrow>
            s_ext s' ns =
              EStr (''# sent_id = '' @ str_int idx @ [NL] @ ''# text = '' @ span_text span @ [NL]
                    @ concat lines)) \<and>
         (\<not> include_headers fmt \<longrightarrow> s_ext s' ns = EStr (concat lines))"
    if "set_span_conll fmt span idx = Inr s'" for s'
  proof -
    from set_span_conll_Inr [OF assms that] obtain ds where
      ts: "set_tokens fmt span 1 (toks span) = Inr (toks s')"
      and strs: "map (\<lambda>t. t_ext t ns) (toks s') = map (\<lambda>d. EStr (token_conll_str d)) ds"
      and s: "s_ext s' ns = EStr (headers fmt span idx @ concat (map token_conll_str ds))"
      by blast
    have "map (\<lambda>t. t_ext t ns) (toks s') = map EStr (map token_conll_str ds)"
      using strs by (simp add: comp_def)
    moreover from set_tokens_nth [OF ts] have "length (toks s') = length (toks span)"
      "\<forall>k<length (toks span).
            set_token_conll fmt span (toks span ! k) (1 + int k) = Inr (toks s' ! k)"
      by auto
    moreover have "include_headers fmt \<longrightarrow>
            s_ext s' ns =
              EStr (''# sent_id = '' @ str_int idx @ [NL] @ ''# text = '' @ span_text span @ [NL]
                    @ concat (map token_conll_str ds))"
      using s by (simp add: headers_def)
    moreover have "\<not> include_headers fmt \<longrightarrow> s_ext s' ns = EStr (concat (map token_conll_str ds))"
      using s by (simp add: headers_def)
    ultimately show ?thesis by blast
  qed
  with set_span_conll_total [OF assms] show ?thesis by blast
qed

lemmas run_defs = set_span_conll_def set_token_conll_def ext_name_def getitem_def
  token_conll_d_def head_idx_def token_conll_def get_morphology_def pandas_def
  CONLL_FIELD_NAMES_def str_join_def token_conll_str_def headers_def

lemma go_span_headers:
  "\<exists>s'. set_span_conll (mk_formatter None True False) sent_go 2 = Inr s' \<and>
        map (\<lambda>t. t_ext t ''conll_str'') (toks s') = [EStr (go_body @ [NL])]"
  by (simp add: run_defs default_ext_names_def mk_token_def mk_span_def mk_formatter_def
      tok_go_def sent_go_def go_body_def str_eval)

theorem span_conll_str_witness:
  "\<exists>s'. set_span_conll (mk_formatter None True False) sent_go 2 = Inr s' \<and>
     s_ext s' ''conll_str'' = EStr (''# sent_id = 2'' @ [NL] @ ''# text = Go'' @ [NL] @ go_body @ [NL])"
proof -
  let ?F = "mk_formatter None True False"
  from go_span_headers obtain s' where s': "set_span_conll ?F sent_go 2 = Inr s'"
    and l: "map (\<lambda>t. t_ext t ''conll_str'') (toks s') = [EStr (go_body @ [NL])]"
    by (elim exE conjE)
  have h: "include_headers ?F" by (simp add: mk_formatter_def)
  have nm: "names ?F ''conll'' ''conll_str'' ''conll_pd''" by (rule names_default)
  have ok: "\<not> (pandas ?F \<and> ''conll_pd'' = ''conll_str'')" by simp
  from span_conll_str [OF nm ok, of sent_go 2] s' h obtain lines where
    lines: "map (\<lambda>t. t_ext t ''conll_str'') (toks s') = map EStr lines"
    and str: "s_ext s' ''conll_str'' =
              EStr (''# sent_id = '' @ str_int 2 @ [NL] @ ''# text = '' @ span_text sent_go @ [NL]
                    @ concat lines)"
    by blast
  from lines l have "map EStr lines = [EStr (go_body @ [NL])]" by simp
  then have "lines = [go_body @ [NL]]" by (cases lines) auto
  with str have "s_ext s' ''conll_str'' = EStr (''# sent_id = 2'' @ [NL] @ ''# text = Go'' @ [NL] @ go_body @ [NL])"
    by (simp add: sent_go_def mk_span_def str_eval)
  with s' show ?thesis by blast
qed

theorem span_conll_str_counterexample:
  "init \<lparr>tag_map = None\<rparr> None (Some [(''conll_pd'', ''conll_str'')]) False False True = Inr pd_as_str \<and>
   set_span_conll pd_as_str sent_go 2 = Inl TypeError"
  by (simp add: init_def default_ext_names_def run_defs pd_as_str_def mk_token_def mk_span_def
      tok_go_def sent_go_def str_eval)

section \<open>Documents\<close>

lemma join_nl_bodies:
  "bodies \<noteq> [] \<Longrightarrow> join [NL] (map (\<lambda>b. b @ [NL]) bodies) = join [NL, NL] bodies @ [NL]"
proof (induction bodies rule: induct_list012)
  case 1
  then show ?case by simp
next
  case (2 b)
  then show ?case by simp
next
  case (3 b c bs)
  then show ?case by simp
qed

lemma concat_lines_end:
  "ds \<noteq> [] \<Longrightarrow> \<exists>b. concat (map token_conll_str ds) = b @ [NL]"
proof (induction ds rule: rev_induct)
  case Nil
  then show ?case by simp
next
  case (snoc d ds)
  show ?case by (simp add: token_conll_str_def)
qed

lemma strs_bodies:
  assumes "\<forall>s\<in>set strs. \<exists>b. s = b @ [NL]"
  shows "strs = map (\<lambda>b. b @ [NL]) (map butlast strs)"
proof -
  have "map (\<lambda>s. butlast s @ [NL]) strs = strs"
  proof (rule map_idI)
    fix s assume "s \<in> set strs"
    with assms obtain b where "s = b @ [NL]" by blast
    then show "butlast s @ [NL] = s" by simp
  qed
  then show ?thesis by (simp add: comp_def)
qed

lemma set_spans_nth:
  "set_spans fmt idx ss = Inr ss' \<Longrightarrow>
   length ss' = length ss \<and>
   (\<forall>k<length ss. set_span_conll fmt (ss ! k) (idx + int k) = Inr (ss' ! k))"
proof (induction ss arbitrary: idx ss')
  case Nil
  then show ?case by simp
next
  case (Cons s ss)
  from Cons.prems obtain s1 ss1 where
    s1: "set_span_conll fmt s idx = Inr s1"
    and ss1: "set_spans fmt (idx + 1) ss = Inr ss1"
    and eq: "ss' = s1 # ss1"
    by (auto split: sum.splits)
  from Cons.IH [OF ss1] have len: "length ss1 = length ss"
    and nth: "\<And>k. k < length ss \<Longrightarrow> set_span_conll fmt (ss ! k) (idx + 1 + int k) = Inr (ss1 ! k)"
    by auto
  have "set_span_conll fmt ((s # ss) ! k) (idx + int k) = Inr (ss' ! k)"
    if "k < length (s # ss)" for k
  proof (cases k)
    case 0
    then show ?thesis using s1 eq by simp
  next
    case (Suc j)
    with that have "j < length ss" by simp
    from nth [OF this] show ?thesis using Suc eq by (simp add: algebra_simps)
  qed
  with len eq show ?case by simp
qed

lemma set_spans_total:
  assumes "names fmt nc ns np" and "\<not> (pandas fmt \<and> np = ns)"
  shows "\<exists>ss'. set_spans fmt idx ss = Inr ss'"
proof (induction ss arbitrary: idx)
  case Nil
  then show ?case by simp
next
  case (Cons s ss)
  from set_span_conll_total [OF assms] obtain s' where "set_span_conll fmt s idx = Inr s'" by blast
  moreover from Cons.IH obtain ss' where "set_spans fmt (idx + 1) ss = Inr ss'" by blast
  ultimately show ?case by simp
qed

lemma set_spans_attrs:
  assumes nm: "names fmt nc ns np" and ok: "\<not> (pandas fmt \<and> np = ns)"
  shows "set_spans fmt idx ss = Inr ss' \<Longrightarrow>
   \<exists>strs. length strs = length ss \<and> map (\<lambda>s. s_ext s ns) ss' = map EStr strs \<and>
     (pandas fmt \<longrightarrow> (\<exists>dfs. length dfs = length ss \<and> map (\<lambda>s. s_ext s np) ss' = map EFrame dfs))"
proof (induction ss arbitrary: idx ss')
  case Nil
  then show ?case by simp
next
  case (Cons s ss)
  from Cons.prems obtain s1 ss1 where
    s1: "set_span_conll fmt s idx = Inr s1"
    and ss1: "set_spans fmt (idx + 1) ss = Inr ss1"
    and eq: "ss' = s1 # ss1"
    by (auto split: sum.splits)
  from set_span_conll_Inr [OF nm ok s1] obtain str where str: "s_ext s1 ns = EStr str"
    and pd: "pandas fmt \<longrightarrow> (\<exists>df. s_ext s1 np = EFrame df)"
    by blast
  from Cons.IH [OF ss1] obtain strs where
    strs: "length strs = length ss" "map (\<lambda>s. s_ext s ns) ss1 = map EStr strs"
    and pds: "pandas fmt \<longrightarrow> (\<exists>dfs. length dfs = length ss \<and> map (\<lambda>s. s_ext s np) ss1 = map EFrame dfs)"
    by blast
  have a: "length (str # strs) = length (s # ss) \<and> map (\<lambda>s. s_ext s ns) ss' = map EStr (str # strs)"
    using str strs eq by simp
  have b: "\<exists>dfs. length dfs = length (s # ss) \<and> map (\<lambda>s. s_ext s np) ss' = map EFrame dfs" if "pandas fmt"
  proof -
    from that pd obtain df where df: "s_ext s1 np = EFrame df" by blast
    from that pds obtain dfs where dfs: "length dfs = length ss" "map (\<lambda>s. s_ext s np) ss1 = map EFrame dfs"
      by blast
    have "length (df # dfs) = length (s # ss) \<and> map (\<lambda>s. s_ext s np) ss' = map EFrame (df # dfs)"
      using df dfs eq by simp
    then show ?thesis by blast
  qed
  from a b show ?case by blast
qed

lemma span_str_ends_nl:
  assumes "names fmt nc ns np" and "\<not> (pandas fmt \<and> np = ns)"
    and "set_span_conll fmt span idx = Inr s'" and "toks span \<noteq> []"
  shows "\<exists>b. s_ext s' ns = EStr (b @ [NL])"
proof -
  from set_span_conll_Inr [OF assms(1,2,3)] obtain ds where
    len: "length ds = length (toks span)"
    and s: "s_ext s' ns = EStr (headers fmt span idx @ concat (map token_conll_str ds))"
    by blast
  from len assms(4) have "ds \<noteq> []" by auto
  from concat_lines_end [OF this] obtain b where "concat (map token_conll_str ds) = b @ [NL]"
    by blast
  with s have "s_ext s' ns = EStr ((headers fmt span idx @ b) @ [NL])" by simp
  then show ?thesis by blast
qed

lemma span_conll_length:
  assumes "names fmt nc ns np" and "\<not> (pandas fmt \<and> np = ns)"
    and "ns \<noteq> nc" and "pandas fmt \<longrightarrow> np \<noteq> nc"
    and "set_span_conll fmt span idx = Inr s'"
  shows "\<exists>recs. s_ext s' nc = EList recs \<and> length recs = length (toks span)"
proof -
  from set_span_conll_Inr [OF assms(1,2,5)] assms(3,4) obtain ds where
    "length ds = length (toks span)" "s_ext s' nc = EList (map EDict ds)"
    by blast
  then show ?thesis by simp
qed

lemma set_extensions_ok: "names fmt nc ns np \<Longrightarrow> set_extensions fmt = Inr ()"
  by (simp add: set_extensions_def names_def)

lemma call_Inr:
  assumes nm: "names fmt nc ns np" and ok: "\<not> (pandas fmt \<and> np = ns)"
    and d: "ns \<noteq> nc" "pandas fmt \<longrightarrow> np \<noteq> nc"
    and c: "call fmt doc = Inr doc'"
  shows "\<exists>strs. set_spans fmt 1 (sents doc) = Inr (sents doc') \<and>
           map (\<lambda>s. s_ext s ns) (sents doc') = map EStr strs \<and>
           d_ext doc' nc = EList (map (\<lambda>s. s_ext s nc) (sents doc')) \<and>
           d_ext doc' ns = EStr (join [NL] strs)"
proof -
  from nm have n: "ext_name fmt ''conll'' = Inr nc" "ext_name fmt ''conll_str'' = Inr ns"
    "ext_name fmt ''conll_pd'' = Inr np"
    by (simp_all add: names_def)
  note e = set_extensions_ok [OF nm]
  from c e obtain ss where ss: "set_spans fmt 1 (sents doc) = Inr ss"
    by (auto simp: call_def split: sum.splits)
  from set_spans_attrs [OF nm ok ss] obtain strs where strs: "map (\<lambda>s. s_ext s ns) ss = map EStr strs"
    by blast
  then have j: "str_join [NL] (map (\<lambda>s. s_ext s ns) ss) = Inr (join [NL] strs)"
    by (simp add: str_join_EStr)
  from c e ss j n ok d have
    "sents doc' = ss \<and> d_ext doc' nc = EList (map (\<lambda>s. s_ext s nc) ss) \<and>
     d_ext doc' ns = EStr (join [NL] strs)"
    by (auto simp: call_def Let_def split: if_splits sum.splits)
  with ss strs show ?thesis by blast
qed

lemma call_total:
  assumes nm: "names fmt nc ns np" and ok: "\<not> (pandas fmt \<and> np = ns)"
    and ne: "sents doc \<noteq> [] \<or> \<not> pandas fmt"
  shows "\<exists>doc'. call fmt doc = Inr doc'"
proof -
  from nm have n: "ext_name fmt ''conll'' = Inr nc" "ext_name fmt ''conll_str'' = Inr ns"
    "ext_name fmt ''conll_pd'' = Inr np"
    by (simp_all add: names_def)
  note e = set_extensions_ok [OF nm]
  from set_spans_total [OF nm ok] obtain ss where ss: "set_spans fmt 1 (sents doc) = Inr ss" by blast
  from set_spans_attrs [OF nm ok ss] obtain strs where strs: "map (\<lambda>s. s_ext s ns) ss = map EStr strs"
    and pd: "pandas fmt \<longrightarrow> (\<exists>dfs. length dfs = length (sents doc) \<and> map (\<lambda>s. s_ext s np) ss = map EFrame dfs)"
    by blast
  have j: "str_join [NL] (map (\<lambda>s. s_ext s ns) ss) = Inr (join [NL] strs)"
    using strs by (simp add: str_join_EStr)
  show ?thesis
  proof (cases "pandas fmt")
    case False
    with e ss j n show ?thesis by (simp add: call_def Let_def)
  next
    case True
    with pd obtain dfs where dfs: "length dfs = length (sents doc)" "map (\<lambda>s. s_ext s np) ss = map EFrame dfs"
      by blast
    from True ne have "sents doc \<noteq> []" by blast
    with dfs(1) have "dfs \<noteq> []" by auto
    then have "pd_concat (map (\<lambda>s. s_ext s np) ss) = Inr (concat dfs)"
      by (simp add: pd_concat_def dfs(2) frames_EFrame)
    with e ss j n True show ?thesis by (simp add: call_def Let_def)
  qed
qed

text \<open>
  C9, as amended. Let the string attribute and the record attribute have different names
  and, with pandas in use, the table attribute a third one. Then \<^verbatim>\<open>__call__\<close> returns
  for every document, unless pandas is in use and the document has no sentence. The
  sentences of the result are the sentences of the document formatted in order with the
  indices from 1. The string of the document is the strings of its sentences joined by
  one newline, and its record attribute is the list of the record attributes of its
  sentences, one entry for each sentence, each as long as the sentence has tokens. When
  every sentence has a token, every sentence string ends with a newline, so that in the
  string of the document the sentences, taken without that newline, are separated by two
  newlines, which is one blank line. When the string is stored under the name of the
  record, the record attribute of the document ends as the string.
\<close>

theorem doc_aggregates:
  assumes nm: "names fmt nc ns np" and d: "ns \<noteq> nc" and p: "pandas fmt \<longrightarrow> np \<noteq> nc \<and> np \<noteq> ns"
  shows
  "(sents doc \<noteq> [] \<or> \<not> pandas fmt \<longrightarrow> (\<exists>doc'. call fmt doc = Inr doc')) \<and>
   (\<forall>doc'. call fmt doc = Inr doc' \<longrightarrow>
      (\<exists>strs. map (\<lambda>s. s_ext s ns) (sents doc') = map EStr strs \<and>
         d_ext doc' ns = EStr (join [NL] strs) \<and>
         d_ext doc' nc = EList (map (\<lambda>s. s_ext s nc) (sents doc')) \<and>
         length (sents doc') = length (sents doc) \<and>
         (\<forall>k<length (sents doc).
            set_span_conll fmt (sents doc ! k) (1 + int k) = Inr (sents doc' ! k)) \<and>
         (\<forall>k<length (sents doc).
            \<exists>recs. s_ext (sents doc' ! k) nc = EList recs \<and>
                   length recs = length (toks (sents doc ! k))) \<and>
         ((\<forall>s\<in>set (sents doc). toks s \<noteq> []) \<longrightarrow>
            (\<exists>bodies. strs = map (\<lambda>b. b @ [NL]) bodies \<and>
               (sents doc \<noteq> [] \<longrightarrow>
                  d_ext doc' ns = EStr (join [NL, NL] bodies @ [NL]))))))"
proof -
  from p have ok: "\<not> (pandas fmt \<and> np = ns)" and pc: "pandas fmt \<longrightarrow> np \<noteq> nc" by auto
  have tot: "sents doc \<noteq> [] \<or> \<not> pandas fmt \<longrightarrow> (\<exists>doc'. call fmt doc = Inr doc')"
    using call_total [OF nm ok, of doc] by blast
  have "\<exists>strs. map (\<lambda>s. s_ext s ns) (sents doc') = map EStr strs \<and>
         d_ext doc' ns = EStr (join [NL] strs) \<and>
         d_ext doc' nc = EList (map (\<lambda>s. s_ext s nc) (sents doc')) \<and>
         length (sents doc') = length (sents doc) \<and>
         (\<forall>k<length (sents doc).
            set_span_conll fmt (sents doc ! k) (1 + int k) = Inr (sents doc' ! k)) \<and>
         (\<forall>k<length (sents doc).
            \<exists>recs. s_ext (sents doc' ! k) nc = EList recs \<and>
                   length recs = length (toks (sents doc ! k))) \<and>
         ((\<forall>s\<in>set (sents doc). toks s \<noteq> []) \<longrightarrow>
            (\<exists>bodies. strs = map (\<lambda>b. b @ [NL]) bodies \<and>
               (sents doc \<noteq> [] \<longrightarrow>
                  d_ext doc' ns = EStr (join [NL, NL] bodies @ [NL]))))"
    if c: "call fmt doc = Inr doc'" for doc'
  proof -
    from call_Inr [OF nm ok d pc c] obtain strs where
      ss: "set_spans fmt 1 (sents doc) = Inr (sents doc')"
      and strs: "map (\<lambda>s. s_ext s ns) (sents doc') = map EStr strs"
      and dc: "d_ext doc' nc = EList (map (\<lambda>s. s_ext s nc) (sents doc'))"
      and ds: "d_ext doc' ns = EStr (join [NL] strs)"
      by blast
    from set_spans_nth [OF ss] have len: "length (sents doc') = length (sents doc)"
      and nth: "\<And>k. k < length (sents doc) \<Longrightarrow>
                 set_span_conll fmt (sents doc ! k) (1 + int k) = Inr (sents doc' ! k)"
      by auto
    have recs: "\<exists>recs. s_ext (sents doc' ! k) nc = EList recs \<and>
                   length recs = length (toks (sents doc ! k))"
      if "k < length (sents doc)" for k
      using span_conll_length [OF nm ok d pc nth [OF that]] .
    have bodies: "\<exists>bodies. strs = map (\<lambda>b. b @ [NL]) bodies \<and>
               (sents doc \<noteq> [] \<longrightarrow> d_ext doc' ns = EStr (join [NL, NL] bodies @ [NL]))"
      if ne: "\<forall>s\<in>set (sents doc). toks s \<noteq> []"
    proof -
      from strs have lstrs: "length strs = length (sents doc')"
        by (metis length_map)
      have "\<exists>b. s = b @ [NL]" if "s \<in> set strs" for s
      proof -
        from that obtain k where k: "k < length strs" "s = strs ! k"
          by (metis in_set_conv_nth)
        with lstrs len have kd: "k < length (sents doc)" by simp
        with ne have "toks (sents doc ! k) \<noteq> []" by simp
        from span_str_ends_nl [OF nm ok nth [OF kd] this] obtain b where
          b: "s_ext (sents doc' ! k) ns = EStr (b @ [NL])" by blast
        have "map (\<lambda>s. s_ext s ns) (sents doc') ! k = map EStr strs ! k" using strs by simp
        with k lstrs have "s_ext (sents doc' ! k) ns = EStr s" by simp
        with b show ?thesis by simp
      qed
      then have eq: "strs = map (\<lambda>b. b @ [NL]) (map butlast strs)"
        using strs_bodies [of strs] by blast
      have "d_ext doc' ns = EStr (join [NL, NL] (map butlast strs) @ [NL])"
        if "sents doc \<noteq> []"
      proof -
        from that len lstrs have "map butlast strs \<noteq> []" by auto
        from join_nl_bodies [OF this] eq ds show ?thesis by simp
      qed
      with eq show ?thesis by blast
    qed
    from strs ds dc len nth recs bodies show ?thesis by blast
  qed
  with tot show ?thesis by blast
qed

lemmas call_defs = call_def set_extensions_def set_span_conll_def set_token_conll_def
  ext_name_def getitem_def token_conll_d_def head_idx_def token_conll_def get_morphology_def
  pandas_def CONLL_FIELD_NAMES_def str_join_def token_conll_str_def headers_def

lemma she_go_strs:
  "\<exists>doc'. call (mk_formatter None False False) doc_she_go = Inr doc' \<and>
          map (\<lambda>s. s_ext s ''conll_str'') (sents doc') = [EStr (she_body @ [NL]), EStr (go_body @ [NL])]"
  by (simp add: call_defs default_ext_names_def mk_doc_def doc_she_go_def sent_go_def tok_go_def
      she_body_def go_body_def sample_defs str_eval)

theorem doc_aggregates_witness:
  "\<exists>doc' recs. call (mk_formatter None False False) doc_she_go = Inr doc' \<and>
      d_ext doc' ''conll'' = EList recs \<and> length recs = 2 \<and>
      d_ext doc' ''conll_str'' = EStr (she_body @ [NL, NL] @ go_body @ [NL])"
proof -
  let ?F = "mk_formatter None False False"
  from she_go_strs obtain doc' where c: "call ?F doc_she_go = Inr doc'"
    and s: "map (\<lambda>s. s_ext s ''conll_str'') (sents doc') = [EStr (she_body @ [NL]), EStr (go_body @ [NL])]"
    by (elim exE conjE)
  have nm: "names ?F ''conll'' ''conll_str'' ''conll_pd''" by (rule names_default)
  have d: "''conll_str'' \<noteq> ''conll''" by simp
  have p: "pandas ?F \<longrightarrow> ''conll_pd'' \<noteq> ''conll'' \<and> ''conll_pd'' \<noteq> ''conll_str''" by simp
  have ne: "\<forall>s\<in>set (sents doc_she_go). toks s \<noteq> []"
    by (simp add: doc_she_go_def mk_doc_def sent_go_def sample_defs)
  have two: "sents doc_she_go \<noteq> []" "length (sents doc_she_go) = 2"
    by (simp_all add: doc_she_go_def mk_doc_def)
  from doc_aggregates [OF nm d p, of doc_she_go] c ne two(1) obtain strs bodies where
    strs: "map (\<lambda>s. s_ext s ''conll_str'') (sents doc') = map EStr strs"
    and dc: "d_ext doc' ''conll'' = EList (map (\<lambda>s. s_ext s ''conll'') (sents doc'))"
    and len: "length (sents doc') = length (sents doc_she_go)"
    and b: "strs = map (\<lambda>b. b @ [NL]) bodies"
    and ds: "d_ext doc' ''conll_str'' = EStr (join [NL, NL] bodies @ [NL])"
    by blast
  from strs s have "map EStr strs = [EStr (she_body @ [NL]), EStr (go_body @ [NL])]" by simp
  then have "strs = [she_body @ [NL], go_body @ [NL]]" by auto
  with b have "map (\<lambda>b. b @ [NL]) bodies = [she_body @ [NL], go_body @ [NL]]" by simp
  then have "bodies = [she_body, go_body]" by auto
  with ds have "d_ext doc' ''conll_str'' = EStr (she_body @ [NL, NL] @ go_body @ [NL])" by simp
  moreover from len two(2) have "length (map (\<lambda>s. s_ext s ''conll'') (sents doc')) = 2" by simp
  ultimately show ?thesis using c dc by blast
qed

theorem doc_aggregates_counterexample:
  "init \<lparr>tag_map = None\<rparr> None (Some [(''conll_str'', ''conll'')]) False False False = Inr str_as_conll \<and>
   doc_attr (call str_as_conll doc_she_go) ''conll'' = Inr (EStr (she_body @ [NL, NL] @ go_body @ [NL]))"
  by (simp add: init_def default_ext_names_def doc_attr_def call_defs str_as_conll_def mk_doc_def
      doc_she_go_def sent_go_def tok_go_def she_body_def go_body_def sample_defs str_eval)

text \<open>
  C2. For a document without sentences \<^verbatim>\<open>__call__\<close>, of a formatter with its three
  names, sets the record attribute to the empty list and the string attribute to the
  empty string. With pandas in use it then calls \<^verbatim>\<open>pd.concat\<close> on an empty list,
  which raises \<^verbatim>\<open>ValueError\<close>: the call does not return and no table is set. Without
  pandas it returns the document.
\<close>

theorem call_no_sentences:
  "names fmt nc ns np \<Longrightarrow> sents doc = [] \<Longrightarrow>
   call fmt doc =
     (if pandas fmt then Inl ValueError
      else Inr (doc\<lparr>sents := [], d_ext := (d_ext doc)(nc := EList [], ns := EStr [])\<rparr>))"
  by (simp add: call_def set_extensions_def names_def str_join_def pd_concat_def)

theorem call_no_sentences_witness:
  "call (mk_formatter None False True) (mk_doc []) = Inl ValueError \<and>
   call (mk_formatter None False False) (mk_doc []) =
     Inr ((mk_doc [])\<lparr>d_ext := (d_ext (mk_doc []))(''conll'' := EList [], ''conll_str'' := EStr [])\<rparr>)"
  using call_no_sentences [OF names_default, of "mk_doc []" None False True]
    call_no_sentences [OF names_default, of "mk_doc []" None False False]
  by (simp add: mk_doc_def mk_formatter_def pandas_def)

end
